theory Spec2Isabelle
  imports Complex_Main "HOL-Library.Word"
begin

section \<open>Outcomes of Go code\<close>

text \<open>
  A Go function of the collector either returns, panics with an index out of range
  (\<open>c[0]\<close> on an empty slice, \<open>profile[0]\<close> on an empty string) or ends the process
  through \<open>logrus.Fatal\<close>. The two abnormal ends are values of \<open>fault\<close>; a function that
  can end abnormally returns \<open>fault + 'a\<close>.
\<close>

datatype fault = IndexOutOfRange | FatalExit

section \<open>Decimal output of integers\<close>

text \<open>\<open>fmt.Sprintf("%d", n)\<close> for an unsigned and for a signed integer.\<close>

definition digitChar :: "nat \<Rightarrow> char" where
  "digitChar d = ''0123456789'' ! d"

fun showNat :: "nat \<Rightarrow> string" where
  "showNat n = (if n < 10 then [digitChar n] else showNat (n div 10) @ [digitChar (n mod 10)])"

declare showNat.simps [simp del]

definition showInt :: "int \<Rightarrow> string" where
  "showInt i = (if i < 0 then CHR ''-'' # showNat (nat (- i)) else showNat (nat i))"

section \<open>Counters and the counter resolver\<close>

text \<open>
  Modelled from the spec: the declaration of \<open>Counter\<close> is not among the source files; the
  fields are those of the spec's data model (field identifier, display name, Prometheus
  kind, help text). The field identifier is an unsigned number, compared after
  \<open>uint(c[i].FieldID)\<close>, which does not change an unsigned value.
\<close>

record Counter =
  FieldID :: nat
  FieldName :: string
  PromType :: string
  Help :: string

text \<open>The loop of \<open>FindCounterField\<close>: the first counter of the slice with the field id.\<close>

fun scanCounters :: "Counter list \<Rightarrow> nat \<Rightarrow> Counter option" where
  "scanCounters [] fieldId = None"
| "scanCounters (x # xs) fieldId =
     (if FieldID x = fieldId then Some x else scanCounters xs fieldId)"

definition notFoundMsg :: "nat \<Rightarrow> string" where
  "notFoundMsg fieldId =
     ''could not find counter corresponding to field ID '' @ [CHR 0x27] @ showNat fieldId @ [CHR 0x27]"

text \<open>
  \<open>FindCounterField\<close> returns the counter and an error (\<open>None\<close> is \<open>nil\<close>). After the
  loop it evaluates \<open>c[0]\<close> for the first component of the result, which panics on an
  empty slice.
\<close>

definition FindCounterField :: "Counter list \<Rightarrow> nat \<Rightarrow> fault + (Counter \<times> string option)" where
  "FindCounterField c fieldId =
     (case scanCounters c fieldId of
        Some x \<Rightarrow> Inr (x, None)
      | None \<Rightarrow>
          (case c of
             [] \<Rightarrow> Inl IndexOutOfRange
           | c0 # _ \<Rightarrow> Inr (c0, Some (notFoundMsg fieldId))))"

text \<open>Counters used in the examples: the power-draw gauge, a temperature gauge and a label.\<close>

definition powerCounter :: Counter where
  "powerCounter = \<lparr>FieldID = 155, FieldName = ''DCGM_FI_DEV_POWER_USAGE'', PromType = ''gauge'', Help = ''Power draw (in W).''\<rparr>"

definition tempCounter :: Counter where
  "tempCounter = \<lparr>FieldID = 150, FieldName = ''DCGM_FI_DEV_GPU_TEMP'', PromType = ''gauge'', Help = ''GPU temperature (in C).''\<rparr>"

definition driverCounter :: Counter where
  "driverCounter = \<lparr>FieldID = 1, FieldName = ''DCGM_FI_DRIVER_VERSION'', PromType = ''label'', Help = ''Driver Version''\<rparr>"

section \<open>Floating-point values\<close>

text \<open>
  A \<open>float64\<close> is modelled by its exact value: a real number, one of the two
  infinities, or NaN. Rounding is not modelled, so every finite operation is exact;
  the special values follow IEEE 754 as Go implements it (\<open>0/0\<close>, \<open>Inf - Inf\<close> and
  \<open>Inf * 0\<close> are NaN, a non-zero value divided by zero is an infinity, every comparison
  with NaN is false). Zero carries no sign: the only divisors of the collector are the
  constant 7 and a sum of accumulators that start at \<open>+0\<close>, which is never \<open>-0\<close>.
\<close>

datatype f64 = Fin real | PInf | NInf | NaN

fun fneg :: "f64 \<Rightarrow> f64" where
  "fneg (Fin a) = Fin (- a)"
| "fneg PInf = NInf"
| "fneg NInf = PInf"
| "fneg NaN = NaN"

fun fadd :: "f64 \<Rightarrow> f64 \<Rightarrow> f64" where
  "fadd (Fin a) (Fin b) = Fin (a + b)"
| "fadd NaN y = NaN"
| "fadd x NaN = NaN"
| "fadd PInf NInf = NaN"
| "fadd NInf PInf = NaN"
| "fadd PInf y = PInf"
| "fadd NInf y = NInf"
| "fadd (Fin a) y = y"

definition fsub :: "f64 \<Rightarrow> f64 \<Rightarrow> f64" where
  "fsub x y = fadd x (fneg y)"

text \<open>The sign of a finite value times an infinity: \<open>sgnInf pos a\<close>.\<close>

definition sgnInf :: "bool \<Rightarrow> real \<Rightarrow> f64" where
  "sgnInf pos a = (if a = 0 then NaN else if (0 < a) = pos then PInf else NInf)"

fun fmul :: "f64 \<Rightarrow> f64 \<Rightarrow> f64" where
  "fmul (Fin a) (Fin b) = Fin (a * b)"
| "fmul NaN y = NaN"
| "fmul x NaN = NaN"
| "fmul PInf (Fin b) = sgnInf True b"
| "fmul NInf (Fin b) = sgnInf False b"
| "fmul (Fin a) PInf = sgnInf True a"
| "fmul (Fin a) NInf = sgnInf False a"
| "fmul PInf PInf = PInf"
| "fmul NInf NInf = PInf"
| "fmul PInf NInf = NInf"
| "fmul NInf PInf = NInf"

fun fdiv :: "f64 \<Rightarrow> f64 \<Rightarrow> f64" where
  "fdiv (Fin a) (Fin b) = (if b = 0 then sgnInf True a else Fin (a / b))"
| "fdiv NaN y = NaN"
| "fdiv x NaN = NaN"
| "fdiv (Fin a) y = Fin 0"
| "fdiv PInf (Fin b) = (if b < 0 then NInf else PInf)"
| "fdiv NInf (Fin b) = (if b < 0 then PInf else NInf)"
| "fdiv x y = NaN"

text \<open>Go's \<open>a > b\<close> and \<open>a != b\<close> on \<open>float64\<close>.\<close>

fun fgt :: "f64 \<Rightarrow> f64 \<Rightarrow> bool" where
  "fgt (Fin a) (Fin b) = (b < a)"
| "fgt NaN y = False"
| "fgt x NaN = False"
| "fgt PInf PInf = False"
| "fgt PInf y = True"
| "fgt x NInf = (x \<noteq> NInf)"
| "fgt x y = False"

definition fne :: "f64 \<Rightarrow> f64 \<Rightarrow> bool" where
  "fne x y = (x = NaN \<or> y = NaN \<or> x \<noteq> y)"

definition ofInt :: "int \<Rightarrow> f64" where
  "ofInt i = Fin (of_int i)"

text \<open>The collector's own \<open>min\<close>.\<close>

definition min_f :: "f64 \<Rightarrow> f64 \<Rightarrow> f64" where
  "min_f a b = (if fgt a b then b else a)"

section \<open>Library functions\<close>

text \<open>
  \<open>strconv.ParseFloat(s, 64)\<close> and \<open>fmt.Sprintf("%f", x)\<close> belong to Go's standard
  library. The collector is modelled over any pair of them: \<open>ParseFloat\<close> returns \<open>None\<close>
  where Go returns an error.
\<close>

record golib =
  ParseFloat :: "string \<Rightarrow> f64 option"
  FormatF :: "f64 \<Rightarrow> string"

text \<open>
  \<open>strconv.Atoi(string(b))\<close> for one byte \<open>b\<close>: the string holds one character, and
  \<open>Atoi\<close> accepts it exactly when it is a decimal digit (a lone sign is a syntax error).
\<close>

definition atoiByte :: "char \<Rightarrow> int option" where
  "atoiByte b = (if 48 \<le> (of_char b :: nat) \<and> (of_char b :: nat) \<le> 57
                 then Some (int (of_char b) - 48) else None)"

section \<open>The value normalizer\<close>

text \<open>
  Modelled from the spec: the two markers are constants of the exporter declared outside
  the source files at hand; the spec requires them to be two different strings.
\<close>

definition SkipDCGMValue :: string where
  "SkipDCGMValue = ''SKIPPING DCGM VALUE''"

definition FailedToConvert :: string where
  "FailedToConvert = ''ERROR - FAILED TO CONVERT TO STRING''"

text \<open>
  Modelled from the spec: the field types and the sentinel payloads are constants of the
  monitoring library (blank, not found, not supported, not permissioned, for 32-bit and
  64-bit integers, for floats and for strings).
\<close>

definition DCGM_FT_DOUBLE :: nat where "DCGM_FT_DOUBLE = 100"
definition DCGM_FT_INT64 :: nat where "DCGM_FT_INT64 = 105"
definition DCGM_FT_STRING :: nat where "DCGM_FT_STRING = 115"

definition DCGM_FT_INT32_BLANK :: "64 word" where "DCGM_FT_INT32_BLANK = 0x7ffffff0"
definition DCGM_FT_INT32_NOT_FOUND :: "64 word" where "DCGM_FT_INT32_NOT_FOUND = 0x7ffffff1"
definition DCGM_FT_INT32_NOT_SUPPORTED :: "64 word" where "DCGM_FT_INT32_NOT_SUPPORTED = 0x7ffffff2"
definition DCGM_FT_INT32_NOT_PERMISSIONED :: "64 word" where "DCGM_FT_INT32_NOT_PERMISSIONED = 0x7ffffff3"
definition DCGM_FT_INT64_BLANK :: "64 word" where "DCGM_FT_INT64_BLANK = 0x7ffffffffffffff0"
definition DCGM_FT_INT64_NOT_FOUND :: "64 word" where "DCGM_FT_INT64_NOT_FOUND = 0x7ffffffffffffff1"
definition DCGM_FT_INT64_NOT_SUPPORTED :: "64 word" where "DCGM_FT_INT64_NOT_SUPPORTED = 0x7ffffffffffffff2"
definition DCGM_FT_INT64_NOT_PERMISSIONED :: "64 word" where "DCGM_FT_INT64_NOT_PERMISSIONED = 0x7ffffffffffffff3"

definition DCGM_FT_FP64_BLANK :: f64 where "DCGM_FT_FP64_BLANK = Fin 140737488355328"
definition DCGM_FT_FP64_NOT_FOUND :: f64 where "DCGM_FT_FP64_NOT_FOUND = Fin 140737488355329"
definition DCGM_FT_FP64_NOT_SUPPORTED :: f64 where "DCGM_FT_FP64_NOT_SUPPORTED = Fin 140737488355330"
definition DCGM_FT_FP64_NOT_PERMISSIONED :: f64 where "DCGM_FT_FP64_NOT_PERMISSIONED = Fin 140737488355331"

definition DCGM_FT_STR_BLANK :: string where "DCGM_FT_STR_BLANK = ''<<<NULL>>>''"
definition DCGM_FT_STR_NOT_FOUND :: string where "DCGM_FT_STR_NOT_FOUND = ''<<<NOT_FOUND>>>''"
definition DCGM_FT_STR_NOT_SUPPORTED :: string where "DCGM_FT_STR_NOT_SUPPORTED = ''<<<NOT_SUPPORTED>>>''"
definition DCGM_FT_STR_NOT_PERMISSIONED :: string where "DCGM_FT_STR_NOT_PERMISSIONED = ''<<<NOT_PERM>>>''"

text \<open>
  A raw sample \<open>dcgm.FieldValue_v1\<close>: the field id, the field type and the payload,
  which the accessors \<open>Int64()\<close>, \<open>Float64()\<close> and \<open>String()\<close> read as a signed 64-bit
  integer, as a float and as a string. The three readings are kept as three fields.
\<close>

record FieldValue_v1 =
  FieldId :: nat
  FieldType :: nat
  Int64 :: "64 word"
  Float64 :: f64
  StringVal :: string

definition intSentinels :: "64 word set" where
  "intSentinels = {DCGM_FT_INT32_BLANK, DCGM_FT_INT32_NOT_FOUND, DCGM_FT_INT32_NOT_SUPPORTED,
     DCGM_FT_INT32_NOT_PERMISSIONED, DCGM_FT_INT64_BLANK, DCGM_FT_INT64_NOT_FOUND,
     DCGM_FT_INT64_NOT_SUPPORTED, DCGM_FT_INT64_NOT_PERMISSIONED}"

definition floatSentinels :: "f64 set" where
  "floatSentinels = {DCGM_FT_FP64_BLANK, DCGM_FT_FP64_NOT_FOUND, DCGM_FT_FP64_NOT_SUPPORTED,
     DCGM_FT_FP64_NOT_PERMISSIONED}"

definition stringSentinels :: "string set" where
  "stringSentinels = {DCGM_FT_STR_BLANK, DCGM_FT_STR_NOT_FOUND, DCGM_FT_STR_NOT_SUPPORTED,
     DCGM_FT_STR_NOT_PERMISSIONED}"

definition ToString :: "golib \<Rightarrow> FieldValue_v1 \<Rightarrow> string" where
  "ToString lib value =
     (if FieldType value = DCGM_FT_INT64 then
        (let v = Int64 value in
         if v = DCGM_FT_INT32_BLANK then SkipDCGMValue
         else if v = DCGM_FT_INT32_NOT_FOUND then SkipDCGMValue
         else if v = DCGM_FT_INT32_NOT_SUPPORTED then SkipDCGMValue
         else if v = DCGM_FT_INT32_NOT_PERMISSIONED then SkipDCGMValue
         else if v = DCGM_FT_INT64_BLANK then SkipDCGMValue
         else if v = DCGM_FT_INT64_NOT_FOUND then SkipDCGMValue
         else if v = DCGM_FT_INT64_NOT_SUPPORTED then SkipDCGMValue
         else if v = DCGM_FT_INT64_NOT_PERMISSIONED then SkipDCGMValue
         else showInt (sint (Int64 value)))
      else if FieldType value = DCGM_FT_DOUBLE then
        (let v = Float64 value in
         if v = DCGM_FT_FP64_BLANK then SkipDCGMValue
         else if v = DCGM_FT_FP64_NOT_FOUND then SkipDCGMValue
         else if v = DCGM_FT_FP64_NOT_SUPPORTED then SkipDCGMValue
         else if v = DCGM_FT_FP64_NOT_PERMISSIONED then SkipDCGMValue
         else FormatF lib (Float64 value))
      else if FieldType value = DCGM_FT_STRING then
        (let v = StringVal value in
         if v = DCGM_FT_STR_BLANK then SkipDCGMValue
         else if v = DCGM_FT_STR_NOT_FOUND then SkipDCGMValue
         else if v = DCGM_FT_STR_NOT_SUPPORTED then SkipDCGMValue
         else if v = DCGM_FT_STR_NOT_PERMISSIONED then SkipDCGMValue
         else v)
      else FailedToConvert)"

section \<open>The MIG power attribution engine\<close>

text \<open>
  Modelled from the spec: the declarations of \<open>MigResourceCache\<close> and \<open>MigResources\<close> are
  not among the source files. The five utilization fields are in the order of the
  spec's weight table (tensor, memory bandwidth, fp64, fp32, fp16), which is the order
  the positional literal \<open>MigResourceCache{0.338, 0.152, 0.17, 0.17, 0.17}\<close> fills.
\<close>

record MigResourceCache =
  Tensor :: f64
  Dram :: f64
  FP64 :: f64
  FP32 :: f64
  FP16 :: f64

record MigResources =
  ID :: string
  Profile :: string
  ResourceCache :: MigResourceCache

text \<open>The zero values \<open>MigResourceCache{}\<close> and \<open>var mig_instance MigResources\<close>.\<close>

definition zeroCache :: MigResourceCache where
  "zeroCache = \<lparr>Tensor = Fin 0, Dram = Fin 0, FP64 = Fin 0, FP32 = Fin 0, FP16 = Fin 0\<rparr>"

definition zeroMig :: MigResources where
  "zeroMig = \<lparr>ID = [], Profile = [], ResourceCache = zeroCache\<rparr>"

definition feature_weights :: MigResourceCache where
  "feature_weights = \<lparr>Tensor = Fin 0.338, Dram = Fin 0.152, FP64 = Fin 0.17, FP32 = Fin 0.17, FP16 = Fin 0.17\<rparr>"

text \<open>
  One round of the loop of \<open>processMigCacheForPower\<close> scales the five fields of its
  copy of the cache entry (\<open>scaleCache\<close>) and adds them to the totals (\<open>addCache\<close>). The
  loop variable is a copy: the cache itself is not changed.
\<close>

definition scaleCache :: "f64 \<Rightarrow> MigResourceCache \<Rightarrow> MigResourceCache" where
  "scaleCache scaling_factor r =
     \<lparr>Tensor = fmul (fmul (Tensor r) scaling_factor) (Tensor feature_weights),
      Dram = fmul (fmul (Dram r) scaling_factor) (Dram feature_weights),
      FP64 = fmul (fmul (FP64 r) scaling_factor) (FP64 feature_weights),
      FP32 = fmul (fmul (FP32 r) scaling_factor) (FP32 feature_weights),
      FP16 = fmul (fmul (FP16 r) scaling_factor) (FP16 feature_weights)\<rparr>"

definition addCache :: "MigResourceCache \<Rightarrow> MigResourceCache \<Rightarrow> MigResourceCache" where
  "addCache totalResource r =
     \<lparr>Tensor = fadd (Tensor totalResource) (Tensor r),
      Dram = fadd (Dram totalResource) (Dram r),
      FP64 = fadd (FP64 totalResource) (FP64 r),
      FP32 = fadd (FP32 totalResource) (FP32 r),
      FP16 = fadd (FP16 totalResource) (FP16 r)\<rparr>"

definition sumCache :: "MigResourceCache \<Rightarrow> f64" where
  "sumCache r = fadd (fadd (fadd (fadd (Tensor r) (Dram r)) (FP64 r)) (FP32 r)) (FP16 r)"

text \<open>
  The loop over the cache entries of one GPU, with the totals and the entry of the
  queried instance as accumulators. It panics on an entry with an empty profile
  (\<open>device.Profile[0]\<close>), and ends the function with an error (the inner \<open>Inl\<close>) on a
  profile whose first byte is not a digit.
\<close>

fun powerLoop ::
  "MigResources list \<Rightarrow> string \<Rightarrow> MigResourceCache \<Rightarrow> MigResources
     \<Rightarrow> fault + (string + MigResourceCache \<times> MigResources)" where
  "powerLoop [] id_s totalResource mig_instance = Inr (Inr (totalResource, mig_instance))"
| "powerLoop (device # m) id_s totalResource mig_instance =
     (case Profile device of
        [] \<Rightarrow> Inl IndexOutOfRange
      | p0 # _ \<Rightarrow>
         (case atoiByte p0 of
            None \<Rightarrow> Inr (Inl ''No profile scaling factor found'')
          | Some s_factor \<Rightarrow>
             (let scaled = device\<lparr>ResourceCache := scaleCache (ofInt s_factor) (ResourceCache device)\<rparr>
              in powerLoop m id_s (addCache totalResource (ResourceCache scaled))
                   (if ID scaled = id_s then scaled else mig_instance))))"

text \<open>The result is the pair of Go's two results: the value and the error (\<open>None\<close> is \<open>nil\<close>).\<close>

definition processMigCacheForPower ::
  "MigResources list \<Rightarrow> string \<Rightarrow> f64 \<Rightarrow> fault + (f64 \<times> string option)" where
  "processMigCacheForPower m id_s active_power =
     (case powerLoop m id_s zeroCache zeroMig of
        Inl f \<Rightarrow> Inl f
      | Inr (Inl e) \<Rightarrow> Inr (Fin 0, Some e)
      | Inr (Inr (totalResource, mig_instance)) \<Rightarrow>
         (let summed_total_metrics = sumCache totalResource;
              summed_instance_metrics = sumCache (ResourceCache mig_instance);
              active_power_scaled = fdiv (fmul active_power summed_instance_metrics) summed_total_metrics
          in if fne active_power_scaled active_power_scaled
             then Inr (Fin 0, Some ''Error computing active power'')
             else Inr (active_power_scaled, None)))"

definition migDeviceResource ::
  "golib \<Rightarrow> string \<Rightarrow> string \<Rightarrow> string \<Rightarrow> nat \<Rightarrow> Counter \<Rightarrow> (nat \<rightharpoonup> MigResources list)
     \<Rightarrow> fault + string" where
  "migDeviceResource lib v profile id_s gpu counter migResourceCache =
     (if FieldID counter \<noteq> 155 then Inr v
      else case profile of
        [] \<Rightarrow> Inl IndexOutOfRange
      | p0 # _ \<Rightarrow>
         (case atoiByte p0 of
            None \<Rightarrow> Inr v
          | Some scaling_factor \<Rightarrow>
             (case ParseFloat lib v of
                None \<Rightarrow> Inr v
              | Some value \<Rightarrow>
                 (let scaled_idle_power = fdiv (fmul (min_f (Fin 90) value) (ofInt scaling_factor)) (Fin 7);
                      active_power = fsub value (min_f (Fin 90) value)
                  in case migResourceCache gpu of
                       None \<Rightarrow> Inr v
                     | Some cachedResource \<Rightarrow>
                        (case processMigCacheForPower cachedResource id_s active_power of
                           Inl f \<Rightarrow> Inl f
                         | Inr (r, err) \<Rightarrow>
                            (let scaled_active_power =
                                   (case err of
                                      Some e \<Rightarrow> fdiv (fmul active_power (ofInt scaling_factor)) (Fin 7)
                                    | None \<Rightarrow> r);
                                 total_power = fadd scaled_active_power scaled_idle_power
                             in Inr (FormatF lib total_power)))))))"

section \<open>Monitored entities and metrics\<close>

text \<open>
  Modelled from the spec: the declarations of the monitored entity, of the device and
  instance metadata and of \<open>Metric\<close> are not among the source files; the fields are
  those the source reads and writes. \<open>d.Identifiers.Model\<close> and
  \<open>instanceInfo.Info.NvmlInstanceId\<close> are flattened into \<open>Device_Model\<close> and
  \<open>NvmlInstanceId\<close>; the fields of the device carry the prefix \<open>Device_\<close> because a
  metric has fields \<open>GPU\<close> and \<open>UUID\<close> of its own. \<open>InstanceInfo\<close> is a pointer:
  \<open>None\<close> is \<open>nil\<close>.
\<close>

record GroupEntityPair =
  EntityGroupId :: nat
  EntityId :: nat

record Device =
  Device_GPU :: nat
  Device_UUID :: string
  Device_Model :: string

record GPUInstanceInfo =
  ProfileName :: string
  NvmlInstanceId :: nat

record MonitoringInfo =
  Entity :: GroupEntityPair
  DeviceInfo :: Device
  InstanceInfo :: "GPUInstanceInfo option"
  ParentId :: nat

text \<open>
  A Go map is a reference: the builders store the same \<open>labels\<close> map in every metric
  of one pass and keep writing to it afterwards. The label maps therefore live in a
  store, and a metric holds the address of its label map. \<open>Attributes\<close> is \<open>nil\<close>
  (\<open>None\<close>) or a map of the metric's own that nothing else refers to.
\<close>

record Metric =
  Counter :: Counter
  Value :: string
  UUID :: string
  GPU :: string
  GPUUUID :: string
  GPUDevice :: string
  GPUModelName :: string
  Hostname :: string
  Labels :: nat
  Attributes :: "(string \<rightharpoonup> string) option"
  MigProfile :: string
  GPUInstanceID :: string

text \<open>
  The state of one collection: the output collection \<open>MetricsByCounter\<close>, the store of
  label maps and the next free address.
\<close>

record collection =
  metrics :: "Counter \<rightharpoonup> Metric list"
  labelStore :: "nat \<Rightarrow> (string \<rightharpoonup> string)"
  nextRef :: nat

text \<open>\<open>metrics[m.Counter] = append(metrics[m.Counter], m)\<close>; a missing key reads as the empty slice.\<close>

definition metricsOf :: "collection \<Rightarrow> Counter \<Rightarrow> Metric list" where
  "metricsOf st k = (case metrics st k of None \<Rightarrow> [] | Some ms \<Rightarrow> ms)"

definition appendMetric :: "collection \<Rightarrow> Metric \<Rightarrow> collection" where
  "appendMetric st m = st\<lparr>metrics := (metrics st)(Counter m \<mapsto> metricsOf st (Counter m) @ [m])\<rparr>"

text \<open>\<open>labels[name] = v\<close> on the label map at address \<open>a\<close>.\<close>

definition setLabel :: "collection \<Rightarrow> nat \<Rightarrow> string \<Rightarrow> string \<Rightarrow> collection" where
  "setLabel st a name v = st\<lparr>labelStore := (labelStore st)(a := (labelStore st a)(name \<mapsto> v))\<rparr>"

text \<open>\<open>labels := map[string]string{}\<close>: a new empty map at the next free address.\<close>

definition newLabels :: "collection \<Rightarrow> nat \<times> collection" where
  "newLabels st = (nextRef st, st\<lparr>labelStore := (labelStore st)(nextRef st := Map.empty), nextRef := Suc (nextRef st)\<rparr>)"

section \<open>The model name\<close>

text \<open>
  \<open>strings.Fields\<close>, \<open>strings.Join\<close> and \<open>strings.ReplaceAll(s, " ", "-")\<close>, on the ASCII
  white space (the two white-space characters beyond ASCII are left out).
\<close>

definition isSpace :: "char \<Rightarrow> bool" where
  "isSpace c = (c \<in> set [CHR 0x09, CHR 0x0A, CHR 0x0B, CHR 0x0C, CHR 0x0D, CHR 0x20])"

fun fieldsFrom :: "string \<Rightarrow> string \<Rightarrow> string list" where
  "fieldsFrom [] cur = (if cur = [] then [] else [cur])"
| "fieldsFrom (c # cs) cur =
     (if isSpace c then (if cur = [] then fieldsFrom cs [] else cur # fieldsFrom cs [])
      else fieldsFrom cs (cur @ [c]))"

definition Fields :: "string \<Rightarrow> string list" where
  "Fields s = fieldsFrom s []"

fun Join :: "string list \<Rightarrow> string \<Rightarrow> string" where
  "Join [] sep = []"
| "Join [x] sep = x"
| "Join (x # y # ys) sep = x @ sep @ Join (y # ys) sep"

definition replaceSpaces :: "string \<Rightarrow> string" where
  "replaceSpaces s = map (\<lambda>c. if c = CHR 0x20 then CHR ''-'' else c) s"

definition getGPUModel :: "Device \<Rightarrow> bool \<Rightarrow> string" where
  "getGPUModel d replaceBlanksInModelName =
     (let gpuModel = Device_Model d
      in if replaceBlanksInModelName then replaceSpaces (Join (Fields gpuModel) '' '') else gpuModel)"

section \<open>The metric builders\<close>

text \<open>
  The loop of \<open>ToMetric\<close> over the samples of one entity; \<open>labels\<close> is the address of
  the label map of this pass. The loop panics where \<open>FindCounterField\<close> or
  \<open>migDeviceResource\<close> does.
\<close>

fun toMetricLoop ::
  "golib \<Rightarrow> FieldValue_v1 list \<Rightarrow> Counter list \<Rightarrow> Device \<Rightarrow> GPUInstanceInfo option \<Rightarrow> bool
     \<Rightarrow> string \<Rightarrow> bool \<Rightarrow> (nat \<rightharpoonup> MigResources list) \<Rightarrow> nat \<Rightarrow> collection
     \<Rightarrow> fault + collection" where
  "toMetricLoop lib [] c d instanceInfo useOld hostname replaceBlanks migResourceCache labels st = Inr st"
| "toMetricLoop lib (x # values) c d instanceInfo useOld hostname replaceBlanks migResourceCache labels st =
     (let v = ToString lib x in
      if v = SkipDCGMValue
      then toMetricLoop lib values c d instanceInfo useOld hostname replaceBlanks migResourceCache labels st
      else case FindCounterField c (FieldId x) of
        Inl f \<Rightarrow> Inl f
      | Inr (counter, Some err) \<Rightarrow>
          toMetricLoop lib values c d instanceInfo useOld hostname replaceBlanks migResourceCache labels st
      | Inr (counter, None) \<Rightarrow>
          if PromType counter = ''label''
          then toMetricLoop lib values c d instanceInfo useOld hostname replaceBlanks migResourceCache labels
                 (setLabel st labels (FieldName counter) v)
          else
            (let uuid = (if useOld then ''uuid'' else ''UUID'');
                 gpuModel = getGPUModel d replaceBlanks;
                 m = \<lparr>Counter = counter, Value = v, UUID = uuid, GPU = showNat (Device_GPU d),
                      GPUUUID = Device_UUID d, GPUDevice = ''nvidia'' @ showNat (Device_GPU d),
                      GPUModelName = gpuModel, Hostname = hostname, Labels = labels,
                      Attributes = Some Map.empty, MigProfile = [], GPUInstanceID = []\<rparr>
             in case instanceInfo of
                  Some inst \<Rightarrow>
                   (case migDeviceResource lib v (ProfileName inst) (showNat (NvmlInstanceId inst))
                           (Device_GPU d) counter migResourceCache of
                      Inl f \<Rightarrow> Inl f
                    | Inr v' \<Rightarrow>
                       toMetricLoop lib values c d instanceInfo useOld hostname replaceBlanks migResourceCache labels
                         (appendMetric st (m\<lparr>MigProfile := ProfileName inst,
                              GPUInstanceID := showNat (NvmlInstanceId inst), Value := v'\<rparr>)))
                | None \<Rightarrow>
                   toMetricLoop lib values c d instanceInfo useOld hostname replaceBlanks migResourceCache labels
                     (appendMetric st (m\<lparr>MigProfile := [], GPUInstanceID := []\<rparr>))))"

definition ToMetric ::
  "golib \<Rightarrow> collection \<Rightarrow> FieldValue_v1 list \<Rightarrow> Counter list \<Rightarrow> Device \<Rightarrow> GPUInstanceInfo option \<Rightarrow> bool
     \<Rightarrow> string \<Rightarrow> bool \<Rightarrow> (nat \<rightharpoonup> MigResources list) \<Rightarrow> fault + collection" where
  "ToMetric lib st values c d instanceInfo useOld hostname replaceBlanksInModelName migResourceCache =
     (let (labels, st1) = newLabels st
      in toMetricLoop lib values c d instanceInfo useOld hostname replaceBlanksInModelName
           migResourceCache labels st1)"

text \<open>
  \<open>ToSwitchMetric\<close> and \<open>ToCPUMetric\<close> have the same loop and differ in the device name
  of the metric (\<open>nvswitch<parent id>\<close> and \<open><parent id>\<close>), which is the parameter
  \<open>gpuDevice\<close> of the loop. Here the counter is resolved and a label is stored before
  the value is compared with the skip marker.
\<close>

fun entityLoop ::
  "golib \<Rightarrow> FieldValue_v1 list \<Rightarrow> Counter list \<Rightarrow> MonitoringInfo \<Rightarrow> bool \<Rightarrow> string \<Rightarrow> string
     \<Rightarrow> nat \<Rightarrow> collection \<Rightarrow> fault + collection" where
  "entityLoop lib [] c mi useOld hostname gpuDevice labels st = Inr st"
| "entityLoop lib (x # values) c mi useOld hostname gpuDevice labels st =
     (let v = ToString lib x in
      case FindCounterField c (FieldId x) of
        Inl f \<Rightarrow> Inl f
      | Inr (counter, Some err) \<Rightarrow> entityLoop lib values c mi useOld hostname gpuDevice labels st
      | Inr (counter, None) \<Rightarrow>
          if PromType counter = ''label''
          then entityLoop lib values c mi useOld hostname gpuDevice labels
                 (setLabel st labels (FieldName counter) v)
          else
            (let uuid = (if useOld then ''uuid'' else ''UUID'')
             in if v = SkipDCGMValue
                then entityLoop lib values c mi useOld hostname gpuDevice labels st
                else entityLoop lib values c mi useOld hostname gpuDevice labels
                       (appendMetric st
                          \<lparr>Counter = counter, Value = v, UUID = uuid,
                           GPU = showNat (EntityId (Entity mi)), GPUUUID = [],
                           GPUDevice = gpuDevice, GPUModelName = [], Hostname = hostname,
                           Labels = labels, Attributes = None, MigProfile = [],
                           GPUInstanceID = []\<rparr>)))"

definition ToSwitchMetric ::
  "golib \<Rightarrow> collection \<Rightarrow> FieldValue_v1 list \<Rightarrow> Counter list \<Rightarrow> MonitoringInfo \<Rightarrow> bool \<Rightarrow> string
     \<Rightarrow> fault + collection" where
  "ToSwitchMetric lib st values c mi useOld hostname =
     (let (labels, st1) = newLabels st
      in entityLoop lib values c mi useOld hostname (''nvswitch'' @ showNat (ParentId mi)) labels st1)"

definition ToCPUMetric ::
  "golib \<Rightarrow> collection \<Rightarrow> FieldValue_v1 list \<Rightarrow> Counter list \<Rightarrow> MonitoringInfo \<Rightarrow> bool \<Rightarrow> string
     \<Rightarrow> fault + collection" where
  "ToCPUMetric lib st values c mi useOld hostname =
     (let (labels, st1) = newLabels st
      in entityLoop lib values c mi useOld hostname (showNat (ParentId mi)) labels st1)"

text \<open>
  The label samples of one pass, in sampling order, as the pairs of label name and
  value: the samples that resolve to a counter of kind \<open>label\<close>. \<open>ToMetric\<close> leaves out
  the samples with the skip marker before it resolves the counter.
\<close>

definition isLabelSample :: "Counter list \<Rightarrow> FieldValue_v1 \<Rightarrow> bool" where
  "isLabelSample c x =
     (case FindCounterField c (FieldId x) of
        Inr (counter, None) \<Rightarrow> PromType counter = ''label''
      | _ \<Rightarrow> False)"

definition labelName :: "Counter list \<Rightarrow> FieldValue_v1 \<Rightarrow> string" where
  "labelName c x = (case FindCounterField c (FieldId x) of Inr (counter, e) \<Rightarrow> FieldName counter | Inl f \<Rightarrow> [])"

definition entityLabelPairs :: "golib \<Rightarrow> Counter list \<Rightarrow> FieldValue_v1 list \<Rightarrow> (string \<times> string) list" where
  "entityLabelPairs lib c values =
     map (\<lambda>x. (labelName c x, ToString lib x)) (filter (isLabelSample c) values)"

definition metricLabelPairs :: "golib \<Rightarrow> Counter list \<Rightarrow> FieldValue_v1 list \<Rightarrow> (string \<times> string) list" where
  "metricLabelPairs lib c values =
     entityLabelPairs lib c (filter (\<lambda>x. ToString lib x \<noteq> SkipDCGMValue) values)"

text \<open>The empty collection, and samples for the examples.\<close>

definition emptyCollection :: collection where
  "emptyCollection = \<lparr>metrics = Map.empty, labelStore = (\<lambda>a. Map.empty), nextRef = 0\<rparr>"

definition powerSample :: FieldValue_v1 where
  "powerSample = \<lparr>FieldId = 155, FieldType = DCGM_FT_DOUBLE, Int64 = 0, Float64 = Fin 200, StringVal = []\<rparr>"

definition driverSample :: FieldValue_v1 where
  "driverSample = \<lparr>FieldId = 1, FieldType = DCGM_FT_STRING, Int64 = 0, Float64 = Fin 0, StringVal = ''535.104''\<rparr>"

definition blankDriverSample :: FieldValue_v1 where
  "blankDriverSample = \<lparr>FieldId = 1, FieldType = DCGM_FT_STRING, Int64 = 0, Float64 = Fin 0, StringVal = ''<<<NOT_FOUND>>>''\<rparr>"

definition gpu0 :: Device where
  "gpu0 = \<lparr>Device_GPU = 0, Device_UUID = ''GPU-0'', Device_Model = ''NVIDIA A100''\<rparr>"

definition switchInfo :: MonitoringInfo where
  "switchInfo = \<lparr>Entity = \<lparr>EntityGroupId = 3, EntityId = 5\<rparr>, DeviceInfo = gpu0, InstanceInfo = None, ParentId = 2\<rparr>"

section \<open>Statements about one pass of a builder\<close>

text \<open>
  The metrics that a pass appends to the collection under a counter; the metric of
  \<open>ToMetric\<close> before the instance fields are set; the relation between the state
  before and after a pass with the label map at address \<open>a\<close> (the label map is the
  old one overwritten by the label pairs in order, no other label map changes, and
  every appended metric refers to \<open>a\<close>, has a counter that is not a label and
  satisfies \<open>P\<close>); and where the value of an appended metric comes from.
\<close>

definition emitted :: "collection \<Rightarrow> collection \<Rightarrow> Counter \<Rightarrow> Metric list" where
  "emitted st st' k = drop (length (metricsOf st k)) (metricsOf st' k)"

definition gpuMetric ::
  "Counter \<Rightarrow> string \<Rightarrow> Device \<Rightarrow> bool \<Rightarrow> string \<Rightarrow> bool \<Rightarrow> nat \<Rightarrow> Metric" where
  "gpuMetric counter v d useOld hostname replaceBlanks a =
     \<lparr>Counter = counter, Value = v, UUID = (if useOld then ''uuid'' else ''UUID''), GPU = showNat (Device_GPU d),
      GPUUUID = Device_UUID d, GPUDevice = ''nvidia'' @ showNat (Device_GPU d),
      GPUModelName = getGPUModel d replaceBlanks, Hostname = hostname, Labels = a,
      Attributes = Some Map.empty, MigProfile = [], GPUInstanceID = []\<rparr>"

definition passInv ::
  "nat \<Rightarrow> (string \<times> string) list \<Rightarrow> (Metric \<Rightarrow> bool) \<Rightarrow> collection \<Rightarrow> collection \<Rightarrow> bool" where
  "passInv a pairs P st st' =
     (labelStore st' a = labelStore st a ++ map_of (rev pairs)
      \<and> (\<forall>b. b \<noteq> a \<longrightarrow> labelStore st' b = labelStore st b)
      \<and> nextRef st' = nextRef st
      \<and> (\<forall>k. \<exists>new. metricsOf st' k = metricsOf st k @ new
            \<and> (\<forall>m \<in> set new. Labels m = a \<and> PromType (Counter m) \<noteq> ''label'' \<and> P m)))"

definition fromSample ::
  "golib \<Rightarrow> FieldValue_v1 list \<Rightarrow> Device \<Rightarrow> GPUInstanceInfo option \<Rightarrow> (nat \<rightharpoonup> MigResources list) \<Rightarrow> Metric \<Rightarrow> bool" where
  "fromSample lib values d inst cache m =
     (\<exists>x \<in> set values. ToString lib x \<noteq> SkipDCGMValue \<and> FieldID (Counter m) = FieldId x
        \<and> (case inst of
              None \<Rightarrow> Value m = ToString lib x
            | Some i \<Rightarrow> migDeviceResource lib (ToString lib x) (ProfileName i) (showNat (NvmlInstanceId i))
                           (Device_GPU d) (Counter m) cache = Inr (Value m)))"

definition emittedLabels :: "fault + collection \<Rightarrow> Counter \<Rightarrow> string \<Rightarrow> string option list" where
  "emittedLabels r k n =
     (case r of Inl f \<Rightarrow> [] | Inr st \<Rightarrow> map (\<lambda>m. labelStore st (Labels m) n) (metricsOf st k))"

definition emittedValues :: "fault + collection \<Rightarrow> Counter \<Rightarrow> string list" where
  "emittedValues r k = (case r of Inl f \<Rightarrow> [] | Inr st \<Rightarrow> map Value (metricsOf st k))"

section \<open>The MIG resource cache builder\<close>

text \<open>
  Modelled from the spec: the error type of the monitoring library and its code for a
  lost connection are declared outside the source files; the spec describes them as a
  distinguished error subtype that signals connection loss.
  \<open>dcgm.EntityGetLatestValues\<close> is the external sampling call: a parameter of the
  model that returns the samples and an error (\<open>None\<close> is \<open>nil\<close>). On a lost
  connection \<open>logrus.Fatal\<close> ends the process; after any other error the loop goes on
  with the samples it got.
\<close>

datatype sample_error = DcgmError int | OtherError

definition DCGM_ST_CONNECTION_NOT_VALID :: int where
  "DCGM_ST_CONNECTION_NOT_VALID = - 21"

type_synonym sampler = "nat \<Rightarrow> nat \<Rightarrow> nat list \<Rightarrow> FieldValue_v1 list \<times> sample_error option"

definition connectionLost :: "sample_error option \<Rightarrow> bool" where
  "connectionLost err =
     (case err of
        Some (DcgmError code) \<Rightarrow> code = DCGM_ST_CONNECTION_NOT_VALID
      | _ \<Rightarrow> False)"

fun fillMigCache :: "golib \<Rightarrow> FieldValue_v1 list \<Rightarrow> MigResources \<Rightarrow> MigResources" where
  "fillMigCache lib [] migCache = migCache"
| "fillMigCache lib (x # vals) migCache =
     (let v = ToString lib x in
      if v = SkipDCGMValue then fillMigCache lib vals migCache
      else case ParseFloat lib v of
        None \<Rightarrow> fillMigCache lib vals migCache
      | Some float_value \<Rightarrow>
          if FieldId x = 1004
          then fillMigCache lib vals (migCache\<lparr>ResourceCache := (ResourceCache migCache)\<lparr>Tensor := float_value\<rparr>\<rparr>)
          else if FieldId x = 1005
          then fillMigCache lib vals (migCache\<lparr>ResourceCache := (ResourceCache migCache)\<lparr>Dram := float_value\<rparr>\<rparr>)
          else if FieldId x = 1006
          then fillMigCache lib vals (migCache\<lparr>ResourceCache := (ResourceCache migCache)\<lparr>FP64 := float_value\<rparr>\<rparr>)
          else if FieldId x = 1007
          then fillMigCache lib vals (migCache\<lparr>ResourceCache := (ResourceCache migCache)\<lparr>FP32 := float_value\<rparr>\<rparr>)
          else if FieldId x = 1008
          then fillMigCache lib vals (migCache\<lparr>ResourceCache := (ResourceCache migCache)\<lparr>FP16 := float_value\<rparr>\<rparr>)
          else fillMigCache lib vals migCache)"

text \<open>The five utilization fields that are sampled.\<close>

definition fileds :: "nat list" where
  "fileds = [1004, 1005, 1006, 1007, 1008]"

text \<open>The cache entry built for one partition: the inner loop, then profile and id.\<close>

definition migEntry :: "golib \<Rightarrow> sampler \<Rightarrow> MonitoringInfo \<Rightarrow> GPUInstanceInfo \<Rightarrow> MigResources" where
  "migEntry lib sample mi inst =
     (fillMigCache lib (fst (sample (EntityGroupId (Entity mi)) (EntityId (Entity mi)) fileds)) zeroMig)
       \<lparr>Profile := ProfileName inst, ID := showNat (NvmlInstanceId inst)\<rparr>"

text \<open>
  The loop over the monitored entities. At the first entity without instance metadata
  the function returns \<open>nil\<close>; a \<open>nil\<close> map is only read afterwards and reads as the
  map without entries, which is how it is modelled.
\<close>

fun migCacheLoop ::
  "golib \<Rightarrow> sampler \<Rightarrow> MonitoringInfo list \<Rightarrow> (nat \<rightharpoonup> MigResources list)
     \<Rightarrow> fault + (nat \<rightharpoonup> MigResources list)" where
  "migCacheLoop lib sample [] migResourceCache = Inr migResourceCache"
| "migCacheLoop lib sample (mi # rest) migResourceCache =
     (case InstanceInfo mi of
        None \<Rightarrow> Inr Map.empty
      | Some inst \<Rightarrow>
         (if connectionLost (snd (sample (EntityGroupId (Entity mi)) (EntityId (Entity mi)) fileds))
          then Inl FatalExit
          else
            (let migCache = migEntry lib sample mi inst
             in migCacheLoop lib sample rest
                  (case migResourceCache (Device_GPU (DeviceInfo mi)) of
                     Some v \<Rightarrow> migResourceCache(Device_GPU (DeviceInfo mi) \<mapsto> v @ [migCache])
                   | None \<Rightarrow> migResourceCache(Device_GPU (DeviceInfo mi) \<mapsto> [migCache])))))"

definition generateMigCache ::
  "golib \<Rightarrow> sampler \<Rightarrow> MonitoringInfo list \<Rightarrow> fault + (nat \<rightharpoonup> MigResources list)" where
  "generateMigCache lib sample monitoringInfo = migCacheLoop lib sample monitoringInfo Map.empty"

text \<open>
  The vocabulary of the statements about the cache: an entity is a partition, the
  entries of the partitions of GPU \<open>g\<close> in list order, and the entries a cache holds for
  a GPU. A sampler without samples and two entities for the examples.
\<close>

definition isPartition :: "MonitoringInfo \<Rightarrow> bool" where
  "isPartition mi = (InstanceInfo mi \<noteq> None)"

definition partitionsOf :: "golib \<Rightarrow> sampler \<Rightarrow> MonitoringInfo list \<Rightarrow> nat \<Rightarrow> MigResources list" where
  "partitionsOf lib sample mis g =
     concat (map (\<lambda>mi. case InstanceInfo mi of None \<Rightarrow> [] | Some inst \<Rightarrow>
        if Device_GPU (DeviceInfo mi) = g then [migEntry lib sample mi inst] else []) mis)"

definition cacheOf :: "(nat \<rightharpoonup> MigResources list) \<Rightarrow> nat \<Rightarrow> MigResources list" where
  "cacheOf cache g = (case cache g of None \<Rightarrow> [] | Some v \<Rightarrow> v)"

definition quietSampler :: sampler where
  "quietSampler groupId entityId fieldIds = ([], None)"

definition partitionInfo :: MonitoringInfo where
  "partitionInfo = \<lparr>Entity = \<lparr>EntityGroupId = 2, EntityId = 0\<rparr>, DeviceInfo = gpu0,
     InstanceInfo = Some \<lparr>ProfileName = ''3g.20gb'', NvmlInstanceId = 1\<rparr>, ParentId = 0\<rparr>"

definition plainGpuInfo :: MonitoringInfo where
  "plainGpuInfo = \<lparr>Entity = \<lparr>EntityGroupId = 1, EntityId = 1\<rparr>,
     DeviceInfo = \<lparr>Device_GPU = 1, Device_UUID = ''GPU-1'', Device_Model = ''NVIDIA A100''\<rparr>,
     InstanceInfo = None, ParentId = 0\<rparr>"

section \<open>A library for the examples\<close>

text \<open>
  The examples run the collector with a parser for plain decimal numerals (digits, an
  optional fraction, an optional minus sign) and with the six-decimal output of \<open>%f\<close>
  on an exact value, rounded half to even. On these strings and values they agree
  with Go up to the rounding of \<open>float64\<close>, which the model leaves out. No theorem
  about all libraries depends on them.
\<close>

definition isDigit :: "char \<Rightarrow> bool" where
  "isDigit c = (48 \<le> (of_char c :: nat) \<and> (of_char c :: nat) \<le> 57)"

fun digitsVal :: "string \<Rightarrow> nat \<Rightarrow> nat option" where
  "digitsVal [] acc = Some acc"
| "digitsVal (c # cs) acc =
     (if isDigit c then digitsVal cs (10 * acc + (of_char c - 48)) else None)"

definition parseUnsigned :: "string \<Rightarrow> real option" where
  "parseUnsigned s =
     (let ip = takeWhile (\<lambda>c. c \<noteq> CHR ''.'') s; rest = dropWhile (\<lambda>c. c \<noteq> CHR ''.'') s in
      if ip = [] then None
      else case digitsVal ip 0 of
        None \<Rightarrow> None
      | Some i \<Rightarrow>
         (case rest of
            [] \<Rightarrow> Some (of_nat i)
          | _ # fp \<Rightarrow>
             (if fp = [] then None
              else case digitsVal fp 0 of
                None \<Rightarrow> None
              | Some f \<Rightarrow> Some (of_nat i + of_nat f / 10 ^ length fp))))"

definition parseDecimal :: "string \<Rightarrow> f64 option" where
  "parseDecimal s =
     (case s of
        [] \<Rightarrow> None
      | c # cs \<Rightarrow>
         (if c = CHR ''-'' then map_option (\<lambda>q. Fin (- q)) (parseUnsigned cs)
          else map_option Fin (parseUnsigned s)))"

definition roundHalfEven :: "real \<Rightarrow> int" where
  "roundHalfEven r =
     (let f = \<lfloor>r\<rfloor>; d = r - of_int f in
      if d < 1 / 2 then f else if 1 / 2 < d then f + 1 else if even f then f else f + 1)"

definition pad6 :: "nat \<Rightarrow> string" where
  "pad6 n = replicate (6 - length (showNat n)) CHR ''0'' @ showNat n"

definition fixed6 :: "nat \<Rightarrow> string" where
  "fixed6 n = showNat (n div 1000000) @ ''.'' @ pad6 (n mod 1000000)"

fun formatFixed :: "f64 \<Rightarrow> string" where
  "formatFixed (Fin q) =
     (if q < 0 then ''-'' else []) @ fixed6 (nat (roundHalfEven (\<bar>q\<bar> * 1000000)))"
| "formatFixed PInf = ''+Inf''"
| "formatFixed NInf = ''-Inf''"
| "formatFixed NaN = ''NaN''"

definition decimalLib :: golib where
  "decimalLib = \<lparr>ParseFloat = parseDecimal, FormatF = formatFixed\<rparr>"

section \<open>Finite utilization samples\<close>

text \<open>
  The vocabulary of the statements about the attribution: a value is finite, the number
  it denotes, a cache entry with five finite (non-negative) utilizations, the slice
  count that the first byte of a profile encodes, and the weighted utilization of an
  entry, that is the sum of its five dimensions after the scaling of the loop.
\<close>

fun isFin :: "f64 \<Rightarrow> bool" where
  "isFin (Fin a) = True"
| "isFin x = False"

fun val :: "f64 \<Rightarrow> real" where
  "val (Fin a) = a"
| "val x = 0"

definition finCache :: "MigResourceCache \<Rightarrow> bool" where
  "finCache r = (isFin (Tensor r) \<and> isFin (Dram r) \<and> isFin (FP64 r) \<and> isFin (FP32 r) \<and> isFin (FP16 r))"

definition nonnegCache :: "MigResourceCache \<Rightarrow> bool" where
  "nonnegCache r = (0 \<le> val (Tensor r) \<and> 0 \<le> val (Dram r) \<and> 0 \<le> val (FP64 r)
     \<and> 0 \<le> val (FP32 r) \<and> 0 \<le> val (FP16 r))"

definition sliceCount :: "MigResources \<Rightarrow> int option" where
  "sliceCount e = (case Profile e of [] \<Rightarrow> None | p0 # ps \<Rightarrow> atoiByte p0)"

definition weightedSum :: "real \<Rightarrow> MigResourceCache \<Rightarrow> real" where
  "weightedSum s r = val (Tensor r) * s * 0.338 + val (Dram r) * s * 0.152 + val (FP64 r) * s * 0.17
     + val (FP32 r) * s * 0.17 + val (FP16 r) * s * 0.17"

definition weighted :: "MigResources \<Rightarrow> real" where
  "weighted e = (case sliceCount e of None \<Rightarrow> 0 | Some s \<Rightarrow> weightedSum (real_of_int s) (ResourceCache e))"

text \<open>
  The cache entries of the examples: two partitions of one GPU with profiles
  \<open>3g.20gb\<close> and \<open>4g.20gb\<close> and tensor activity 0.5 and 0.1, an idle partition, and a
  partition that owns the whole GPU.
\<close>

definition migA :: MigResources where
  "migA = \<lparr>ID = ''1'', Profile = ''3g.20gb'',
     ResourceCache = \<lparr>Tensor = Fin 0.5, Dram = Fin 0, FP64 = Fin 0, FP32 = Fin 0, FP16 = Fin 0\<rparr>\<rparr>"

definition migB :: MigResources where
  "migB = \<lparr>ID = ''2'', Profile = ''4g.20gb'',
     ResourceCache = \<lparr>Tensor = Fin 0.1, Dram = Fin 0, FP64 = Fin 0, FP32 = Fin 0, FP16 = Fin 0\<rparr>\<rparr>"

definition migIdle :: MigResources where
  "migIdle = \<lparr>ID = ''1'', Profile = ''3g.20gb'', ResourceCache = zeroCache\<rparr>"

definition migFull :: MigResources where
  "migFull = \<lparr>ID = ''0'', Profile = ''7g.40gb'',
     ResourceCache = \<lparr>Tensor = Fin 0.5, Dram = Fin 0.25, FP64 = Fin 0, FP32 = Fin 0, FP16 = Fin 0\<rparr>\<rparr>"

section \<open>The counter resolver\<close>

lemma scanCounters_first:
  "\<forall>y \<in> set pre. FieldID y \<noteq> f \<Longrightarrow> FieldID x = f \<Longrightarrow> scanCounters (pre @ x # post) f = Some x"
  by (induction pre) auto

lemma scanCounters_none:
  "(scanCounters c f = None) = (\<forall>y \<in> set c. FieldID y \<noteq> f)"
  by (induction c) auto

lemma digitChar_inj: "d < 10 \<Longrightarrow> e < 10 \<Longrightarrow> digitChar d = digitChar e \<Longrightarrow> d = e"
proof -
  assume d: "d < 10" and e: "e < 10" and eq: "digitChar d = digitChar e"
  from d have dc: "d = 0 \<or> d = 1 \<or> d = 2 \<or> d = 3 \<or> d = 4 \<or> d = 5 \<or> d = 6 \<or> d = 7 \<or> d = 8 \<or> d = 9"
    by arith
  from e have ec: "e = 0 \<or> e = 1 \<or> e = 2 \<or> e = 3 \<or> e = 4 \<or> e = 5 \<or> e = 6 \<or> e = 7 \<or> e = 8 \<or> e = 9"
    by arith
  from dc ec eq show ?thesis
    by (elim disjE) (simp_all add: digitChar_def)
qed

lemma showNat_nonempty: "showNat n \<noteq> []"
  by (subst showNat.simps) simp

lemma showNat_inj: "showNat n = showNat m \<Longrightarrow> n = m"
proof (induction n arbitrary: m rule: showNat.induct)
  case (1 n)
  show ?case
  proof (cases "n < 10")
    case small: True
    show ?thesis
    proof (cases "m < 10")
      case True
      with small "1.prems" have "digitChar n = digitChar m"
        by (simp add: showNat.simps [of n] showNat.simps [of m])
      with small True show ?thesis by (rule digitChar_inj)
    next
      case False
      with small "1.prems" have "[digitChar n] = showNat (m div 10) @ [digitChar (m mod 10)]"
        by (simp add: showNat.simps [of n] showNat.simps [of m])
      then show ?thesis using showNat_nonempty [of "m div 10"] by simp
    qed
  next
    case big: False
    show ?thesis
    proof (cases "m < 10")
      case True
      with big "1.prems" have "showNat (n div 10) @ [digitChar (n mod 10)] = [digitChar m]"
        by (simp add: showNat.simps [of n] showNat.simps [of m])
      then show ?thesis using showNat_nonempty [of "n div 10"] by simp
    next
      case False
      with big "1.prems" have "showNat (n div 10) @ [digitChar (n mod 10)]
          = showNat (m div 10) @ [digitChar (m mod 10)]"
        by (simp add: showNat.simps [of n] showNat.simps [of m])
      then have a: "showNat (n div 10) = showNat (m div 10)"
        and b: "digitChar (n mod 10) = digitChar (m mod 10)" by simp_all
      from "1.IH" [OF big a] have q: "n div 10 = m div 10" .
      have "n mod 10 = m mod 10" by (rule digitChar_inj [OF _ _ b]) simp_all
      with q show ?thesis by (metis div_mult_mod_eq)
    qed
  qed
qed

text \<open>
  Claim C10. \<open>FindCounterField\<close> returns on every non-empty counter list: the first
  counter whose field id is the queried one, with no error, and when no counter has
  that id the first element of the list together with the error
  \<open>could not find counter corresponding to field ID '<id>'\<close>, whose text holds the
  queried id in decimal, so that the failures for two different ids differ. On the
  empty list the not-found branch reads element 0 and the function panics with an
  index out of range, for every field id.
\<close>

theorem FindCounterField_total_iff_nonempty:
  "(c \<noteq> [] \<longrightarrow> (\<exists>r. FindCounterField c f = Inr r))
   \<and> ((\<forall>y \<in> set pre. FieldID y \<noteq> f) \<and> FieldID x = f
        \<longrightarrow> FindCounterField (pre @ x # post) f = Inr (x, None))
   \<and> (c \<noteq> [] \<and> (\<forall>y \<in> set c. FieldID y \<noteq> f)
        \<longrightarrow> FindCounterField c f
             = Inr (hd c, Some (''could not find counter corresponding to field ID ''
                                  @ [CHR 0x27] @ showNat f @ [CHR 0x27])))
   \<and> (c \<noteq> [] \<and> (\<forall>y \<in> set c. FieldID y \<noteq> f) \<and> (\<forall>y \<in> set c. FieldID y \<noteq> g)
          \<and> FindCounterField c f = FindCounterField c g
        \<longrightarrow> f = g)
   \<and> FindCounterField [] f = Inl IndexOutOfRange"
proof -
  have total: "c \<noteq> [] \<longrightarrow> (\<exists>r. FindCounterField c f = Inr r)"
    by (cases c; cases "scanCounters c f") (simp_all add: FindCounterField_def)
  have found: "(\<forall>y \<in> set pre. FieldID y \<noteq> f) \<and> FieldID x = f
        \<longrightarrow> FindCounterField (pre @ x # post) f = Inr (x, None)"
    by (simp add: FindCounterField_def scanCounters_first)
  have miss: "FindCounterField c h
      = Inr (hd c, Some (''could not find counter corresponding to field ID ''
                           @ [CHR 0x27] @ showNat h @ [CHR 0x27]))"
    if ne: "c \<noteq> []" and no: "\<forall>y \<in> set c. FieldID y \<noteq> h" for h
  proof -
    from no have "scanCounters c h = None" by (simp add: scanCounters_none)
    with ne show ?thesis
      by (cases c) (simp_all add: FindCounterField_def notFoundMsg_def)
  qed
  have missing: "c \<noteq> [] \<and> (\<forall>y \<in> set c. FieldID y \<noteq> f)
        \<longrightarrow> FindCounterField c f
             = Inr (hd c, Some (''could not find counter corresponding to field ID ''
                                  @ [CHR 0x27] @ showNat f @ [CHR 0x27]))"
    using miss by blast
  have names: "c \<noteq> [] \<and> (\<forall>y \<in> set c. FieldID y \<noteq> f) \<and> (\<forall>y \<in> set c. FieldID y \<noteq> g)
          \<and> FindCounterField c f = FindCounterField c g
        \<longrightarrow> f = g"
  proof (intro impI, elim conjE)
    assume ne: "c \<noteq> []" and nf: "\<forall>y \<in> set c. FieldID y \<noteq> f" and ng: "\<forall>y \<in> set c. FieldID y \<noteq> g"
      and eq: "FindCounterField c f = FindCounterField c g"
    from eq miss [OF ne nf] miss [OF ne ng] have "showNat f = showNat g" by simp
    then show "f = g" by (rule showNat_inj)
  qed
  have empty: "FindCounterField [] f = Inl IndexOutOfRange"
    by (simp add: FindCounterField_def)
  from total found missing names empty show ?thesis by blast
qed

theorem FindCounterField_total_iff_nonempty_witness:
  "FindCounterField [powerCounter, tempCounter] 150 = Inr (tempCounter, None)
   \<and> FindCounterField [powerCounter, tempCounter] 7
       = Inr (powerCounter, Some (''could not find counter corresponding to field ID '' @ [CHR 0x27] @ ''7'' @ [CHR 0x27]))
   \<and> FindCounterField [powerCounter, tempCounter] 1004
       = Inr (powerCounter, Some (''could not find counter corresponding to field ID '' @ [CHR 0x27] @ ''1004'' @ [CHR 0x27]))
   \<and> FindCounterField [] 7 = Inl IndexOutOfRange"
proof -
  have s7: "showNat 7 = ''7''" and s1004: "showNat 1004 = ''1004''"
    by (simp_all add: showNat.simps digitChar_def)
  from FindCounterField_total_iff_nonempty [of "[powerCounter, tempCounter]" 150 "[powerCounter]" tempCounter "[]" 150]
  have a: "FindCounterField [powerCounter, tempCounter] 150 = Inr (tempCounter, None)"
    by (simp add: powerCounter_def tempCounter_def)
  from FindCounterField_total_iff_nonempty [of "[powerCounter, tempCounter]" 7 "[]" powerCounter "[]" 7]
  have b: "FindCounterField [powerCounter, tempCounter] 7
       = Inr (powerCounter, Some (''could not find counter corresponding to field ID '' @ [CHR 0x27] @ ''7'' @ [CHR 0x27]))"
    and d: "FindCounterField [] 7 = Inl IndexOutOfRange"
    by (simp_all add: powerCounter_def tempCounter_def s7)
  from FindCounterField_total_iff_nonempty [of "[powerCounter, tempCounter]" 1004 "[]" powerCounter "[]" 1004]
  have c: "FindCounterField [powerCounter, tempCounter] 1004
       = Inr (powerCounter, Some (''could not find counter corresponding to field ID '' @ [CHR 0x27] @ ''1004'' @ [CHR 0x27]))"
    by (simp add: powerCounter_def tempCounter_def s1004)
  from a b c d show ?thesis by blast
qed

section \<open>The value normalizer\<close>

lemma markers_differ: "FailedToConvert \<noteq> SkipDCGMValue"
  by (simp add: FailedToConvert_def SkipDCGMValue_def)

text \<open>
  Claim C9. \<open>ToString\<close> maps an integer sample whose payload is one of the eight
  integer sentinels, a float sample whose payload is one of the four float sentinels and
  a string sample whose payload is one of the four string sentinels to the skip marker;
  every other integer sample to its decimal string, every other float sample to its
  \<open>%f\<close> output, every other string sample to its payload unchanged; and a sample of any
  other field type to the conversion-failed marker, which differs from the skip marker.
\<close>

theorem ToString_cases:
  "(FieldType x = DCGM_FT_INT64 \<and> Int64 x \<in> intSentinels \<longrightarrow> ToString lib x = SkipDCGMValue)
   \<and> (FieldType x = DCGM_FT_DOUBLE \<and> Float64 x \<in> floatSentinels \<longrightarrow> ToString lib x = SkipDCGMValue)
   \<and> (FieldType x = DCGM_FT_STRING \<and> StringVal x \<in> stringSentinels \<longrightarrow> ToString lib x = SkipDCGMValue)
   \<and> (FieldType x = DCGM_FT_INT64 \<and> Int64 x \<notin> intSentinels
        \<longrightarrow> ToString lib x = showInt (sint (Int64 x)))
   \<and> (FieldType x = DCGM_FT_DOUBLE \<and> Float64 x \<notin> floatSentinels
        \<longrightarrow> ToString lib x = FormatF lib (Float64 x))
   \<and> (FieldType x = DCGM_FT_STRING \<and> StringVal x \<notin> stringSentinels
        \<longrightarrow> ToString lib x = StringVal x)
   \<and> (FieldType x \<notin> {DCGM_FT_INT64, DCGM_FT_DOUBLE, DCGM_FT_STRING}
        \<longrightarrow> ToString lib x = FailedToConvert)
   \<and> FailedToConvert \<noteq> SkipDCGMValue"
proof -
  have types: "DCGM_FT_DOUBLE \<noteq> DCGM_FT_INT64" "DCGM_FT_STRING \<noteq> DCGM_FT_INT64"
    "DCGM_FT_STRING \<noteq> DCGM_FT_DOUBLE"
    by (simp_all add: DCGM_FT_DOUBLE_def DCGM_FT_INT64_def DCGM_FT_STRING_def)
  have i1: "FieldType x = DCGM_FT_INT64 \<and> Int64 x \<in> intSentinels \<longrightarrow> ToString lib x = SkipDCGMValue"
    by (auto simp: ToString_def intSentinels_def)
  have d1: "FieldType x = DCGM_FT_DOUBLE \<and> Float64 x \<in> floatSentinels \<longrightarrow> ToString lib x = SkipDCGMValue"
    using types by (auto simp: ToString_def floatSentinels_def)
  have s1: "FieldType x = DCGM_FT_STRING \<and> StringVal x \<in> stringSentinels \<longrightarrow> ToString lib x = SkipDCGMValue"
    using types by (auto simp: ToString_def stringSentinels_def)
  have i2: "FieldType x = DCGM_FT_INT64 \<and> Int64 x \<notin> intSentinels
        \<longrightarrow> ToString lib x = showInt (sint (Int64 x))"
    by (simp add: ToString_def intSentinels_def)
  have d2: "FieldType x = DCGM_FT_DOUBLE \<and> Float64 x \<notin> floatSentinels
        \<longrightarrow> ToString lib x = FormatF lib (Float64 x)"
    using types by (simp add: ToString_def floatSentinels_def)
  have s2: "FieldType x = DCGM_FT_STRING \<and> StringVal x \<notin> stringSentinels
        \<longrightarrow> ToString lib x = StringVal x"
    using types by (simp add: ToString_def stringSentinels_def)
  have other: "FieldType x \<notin> {DCGM_FT_INT64, DCGM_FT_DOUBLE, DCGM_FT_STRING}
        \<longrightarrow> ToString lib x = FailedToConvert"
    by (simp add: ToString_def)
  from i1 d1 s1 i2 d2 s2 other markers_differ show ?thesis by blast
qed

section \<open>The power attribution: parse failures and other counters\<close>

lemma fadd_commute: "fadd x y = fadd y x"
  by (cases x; cases y) simp_all

lemma scaleCache_zero: "scaleCache (ofInt s) zeroCache = zeroCache"
  by (simp add: scaleCache_def zeroCache_def ofInt_def feature_weights_def)

lemma addCache_zero: "addCache zeroCache r = r"
proof -
  have z: "fadd (Fin 0) x = x" for x by (cases x) simp_all
  show ?thesis by (simp add: addCache_def zeroCache_def z)
qed

lemma sumCache_zero: "sumCache zeroCache = Fin 0"
  by (simp add: sumCache_def zeroCache_def)

lemma zero_over_zero: "fdiv (fmul a (Fin 0)) (Fin 0) = NaN"
  by (cases a) (simp_all add: sgnInf_def)

lemma powerLoop_all_zero:
  "\<forall>e \<in> set m. ResourceCache e = zeroCache \<and> Profile e \<noteq> [] \<Longrightarrow> ResourceCache inst = zeroCache \<Longrightarrow>
   (\<exists>msg. powerLoop m i zeroCache inst = Inr (Inl msg))
   \<or> (\<exists>inst'. powerLoop m i zeroCache inst = Inr (Inr (zeroCache, inst')) \<and> ResourceCache inst' = zeroCache)"
proof (induction m arbitrary: inst)
  case Nil
  then show ?case by simp
next
  case (Cons e m)
  from Cons.prems obtain p0 ps where p: "Profile e = p0 # ps"
    by (cases "Profile e") auto
  show ?case
  proof (cases "atoiByte p0")
    case None
    with p show ?thesis by simp
  next
    case (Some s)
    let ?sc = "e\<lparr>ResourceCache := scaleCache (ofInt s) (ResourceCache e)\<rparr>"
    have rc: "ResourceCache ?sc = zeroCache"
      using Cons.prems by (simp add: scaleCache_zero)
    have step: "powerLoop (e # m) i zeroCache inst
          = powerLoop m i zeroCache (if ID e = i then ?sc else inst)"
      using p Some rc by (simp add: Let_def addCache_zero)
    have "ResourceCache (if ID e = i then ?sc else inst) = zeroCache"
      using rc Cons.prems(2) by simp
    from Cons.IH [OF _ this] Cons.prems(1) step show ?thesis by simp
  qed
qed

lemma process_all_zero:
  assumes "\<forall>e \<in> set m. ResourceCache e = zeroCache \<and> Profile e \<noteq> []"
  shows "\<exists>msg. processMigCacheForPower m i a = Inr (Fin 0, Some msg)"
proof -
  have "ResourceCache zeroMig = zeroCache" by (simp add: zeroMig_def)
  from powerLoop_all_zero [OF assms this, of i]
  show ?thesis
    by (auto simp: processMigCacheForPower_def sumCache_zero zero_over_zero fne_def Let_def)
qed

lemma migDeviceResource_other_counter:
  "FieldID counter \<noteq> 155 \<Longrightarrow> migDeviceResource lib v profile i gpu counter cache = Inr v"
  by (simp add: migDeviceResource_def)

text \<open>
  Claim C6. For the power counter (field id 155) and a non-empty profile, when the first
  byte of the profile is not a digit or the value string does not parse as a float,
  \<open>migDeviceResource\<close> returns the value string it was given. The non-empty profile
  is a precondition: on the empty profile the read of its first byte panics.
\<close>

theorem migDeviceResource_parse_failure:
  "(FieldID counter = 155 \<and> profile \<noteq> [] \<and> (atoiByte (hd profile) = None \<or> ParseFloat lib v = None)
      \<longrightarrow> migDeviceResource lib v profile i gpu counter cache = Inr v)
   \<and> (FieldID counter = 155 \<longrightarrow> migDeviceResource lib v [] i gpu counter cache = Inl IndexOutOfRange)"
  by (cases profile) (auto simp: migDeviceResource_def split: option.splits)

theorem migDeviceResource_parse_failure_witness:
  "migDeviceResource decimalLib ''200'' ''xg.20gb'' ''1'' 0 powerCounter [0 \<mapsto> [migA]] = Inr ''200''
   \<and> migDeviceResource decimalLib ''N/A'' ''3g.20gb'' ''1'' 0 powerCounter [0 \<mapsto> [migA]] = Inr ''N/A''
   \<and> migDeviceResource decimalLib ''200'' [] ''1'' 0 powerCounter [0 \<mapsto> [migA]] = Inl IndexOutOfRange"
  using migDeviceResource_parse_failure [of powerCounter "''xg.20gb''" decimalLib "''200''" "''1''" 0 "[0 \<mapsto> [migA]]"]
    migDeviceResource_parse_failure [of powerCounter "''3g.20gb''" decimalLib "''N/A''" "''1''" 0 "[0 \<mapsto> [migA]]"]
  by (simp add: powerCounter_def atoiByte_def decimalLib_def parseDecimal_def parseUnsigned_def isDigit_def)

section \<open>Evaluation of the examples\<close>

lemma migA_fields: "ID migA = ''1''" "Profile migA = ''3g.20gb''"
  by (simp_all add: migA_def)

lemma migB_fields: "ID migB = ''2''" "Profile migB = ''4g.20gb''"
  by (simp_all add: migB_def)

lemma min_f_fin: "min_f (Fin a) (Fin b) = Fin (min a b)"
  by (simp add: min_f_def min_def)

lemma atoi3: "atoiByte (CHR ''3'') = Some 3"
  by (simp add: atoiByte_def)

lemma parse200: "parseDecimal ''200'' = Some (Fin 200)"
  by (simp add: parseDecimal_def parseUnsigned_def isDigit_def)

lemma fmt_w: "formatFixed (Fin (1040 / 7)) = ''148.571429''"
  apply (simp add: roundHalfEven_def Let_def)
  apply (simp add: fixed6_def pad6_def showNat.simps digitChar_def)
  done

lemma fmt_n: "formatFixed (Fin (600 / 7)) = ''85.714286''"
  apply (simp add: roundHalfEven_def Let_def)
  apply (simp add: fixed6_def pad6_def showNat.simps digitChar_def)
  done

lemma replicate_pad:
  "replicate 5 c = [c, c, c, c, c]" "replicate 4 c = [c, c, c, c]" "replicate 3 c = [c, c, c]"
  "replicate 2 c = [c, c]"
  by (simp_all add: eval_nat_numeral)

lemma fmt_full: "formatFixed (Fin 200) = ''200.000000''"
  apply (simp add: roundHalfEven_def Let_def)
  apply (simp add: fixed6_def pad6_def showNat.simps digitChar_def replicate_pad)
  done

text \<open>The cases of the value normalizer on seven samples.\<close>

theorem ToString_cases_witness:
  "ToString decimalLib \<lparr>FieldId = 150, FieldType = DCGM_FT_INT64, Int64 = 0x7ffffff0, Float64 = Fin 0, StringVal = []\<rparr> = SkipDCGMValue
   \<and> ToString decimalLib \<lparr>FieldId = 150, FieldType = DCGM_FT_INT64, Int64 = 42, Float64 = Fin 0, StringVal = []\<rparr> = ''42''
   \<and> ToString decimalLib \<lparr>FieldId = 155, FieldType = DCGM_FT_DOUBLE, Int64 = 0, Float64 = Fin 140737488355328, StringVal = []\<rparr> = SkipDCGMValue
   \<and> ToString decimalLib \<lparr>FieldId = 155, FieldType = DCGM_FT_DOUBLE, Int64 = 0, Float64 = Fin 200, StringVal = []\<rparr> = ''200.000000''
   \<and> ToString decimalLib \<lparr>FieldId = 1, FieldType = DCGM_FT_STRING, Int64 = 0, Float64 = Fin 0, StringVal = ''<<<NOT_FOUND>>>''\<rparr> = SkipDCGMValue
   \<and> ToString decimalLib \<lparr>FieldId = 1, FieldType = DCGM_FT_STRING, Int64 = 0, Float64 = Fin 0, StringVal = ''535.104''\<rparr> = ''535.104''
   \<and> ToString decimalLib \<lparr>FieldId = 1, FieldType = 98, Int64 = 0, Float64 = Fin 0, StringVal = []\<rparr> = FailedToConvert"
proof -
  have s42: "showInt 42 = ''42''"
    by (simp add: showInt_def showNat.simps digitChar_def)
  have f200: "FormatF decimalLib (Fin 200) = ''200.000000''"
    by (simp only: decimalLib_def golib.simps fmt_full)
  have types: "DCGM_FT_INT64 = 105" "DCGM_FT_DOUBLE = 100" "DCGM_FT_STRING = 115"
    by (simp_all add: DCGM_FT_DOUBLE_def DCGM_FT_INT64_def DCGM_FT_STRING_def)
  note sent = intSentinels_def floatSentinels_def stringSentinels_def
    DCGM_FT_INT32_BLANK_def DCGM_FT_INT32_NOT_FOUND_def DCGM_FT_INT32_NOT_SUPPORTED_def
    DCGM_FT_INT32_NOT_PERMISSIONED_def DCGM_FT_INT64_BLANK_def DCGM_FT_INT64_NOT_FOUND_def
    DCGM_FT_INT64_NOT_SUPPORTED_def DCGM_FT_INT64_NOT_PERMISSIONED_def
    DCGM_FT_FP64_BLANK_def DCGM_FT_FP64_NOT_FOUND_def DCGM_FT_FP64_NOT_SUPPORTED_def
    DCGM_FT_FP64_NOT_PERMISSIONED_def DCGM_FT_STR_BLANK_def DCGM_FT_STR_NOT_FOUND_def
    DCGM_FT_STR_NOT_SUPPORTED_def DCGM_FT_STR_NOT_PERMISSIONED_def
  have c1: "ToString decimalLib \<lparr>FieldId = 150, FieldType = DCGM_FT_INT64, Int64 = 0x7ffffff0, Float64 = Fin 0, StringVal = []\<rparr> = SkipDCGMValue"
    using ToString_cases [of "\<lparr>FieldId = 150, FieldType = DCGM_FT_INT64, Int64 = 0x7ffffff0, Float64 = Fin 0, StringVal = []\<rparr>" decimalLib]
    by (simp add: sent)
  have c2: "ToString decimalLib \<lparr>FieldId = 150, FieldType = DCGM_FT_INT64, Int64 = 42, Float64 = Fin 0, StringVal = []\<rparr> = ''42''"
    using ToString_cases [of "\<lparr>FieldId = 150, FieldType = DCGM_FT_INT64, Int64 = 42, Float64 = Fin 0, StringVal = []\<rparr>" decimalLib]
    by (simp add: sent s42)
  have c3: "ToString decimalLib \<lparr>FieldId = 155, FieldType = DCGM_FT_DOUBLE, Int64 = 0, Float64 = Fin 140737488355328, StringVal = []\<rparr> = SkipDCGMValue"
    using ToString_cases [of "\<lparr>FieldId = 155, FieldType = DCGM_FT_DOUBLE, Int64 = 0, Float64 = Fin 140737488355328, StringVal = []\<rparr>" decimalLib]
    by (simp add: sent)
  have c4: "ToString decimalLib \<lparr>FieldId = 155, FieldType = DCGM_FT_DOUBLE, Int64 = 0, Float64 = Fin 200, StringVal = []\<rparr> = ''200.000000''"
    using ToString_cases [of "\<lparr>FieldId = 155, FieldType = DCGM_FT_DOUBLE, Int64 = 0, Float64 = Fin 200, StringVal = []\<rparr>" decimalLib]
    by (simp add: sent f200)
  have c5: "ToString decimalLib \<lparr>FieldId = 1, FieldType = DCGM_FT_STRING, Int64 = 0, Float64 = Fin 0, StringVal = ''<<<NOT_FOUND>>>''\<rparr> = SkipDCGMValue"
    using ToString_cases [of "\<lparr>FieldId = 1, FieldType = DCGM_FT_STRING, Int64 = 0, Float64 = Fin 0, StringVal = ''<<<NOT_FOUND>>>''\<rparr>" decimalLib]
    by (simp add: sent)
  have c6: "ToString decimalLib \<lparr>FieldId = 1, FieldType = DCGM_FT_STRING, Int64 = 0, Float64 = Fin 0, StringVal = ''535.104''\<rparr> = ''535.104''"
    using ToString_cases [of "\<lparr>FieldId = 1, FieldType = DCGM_FT_STRING, Int64 = 0, Float64 = Fin 0, StringVal = ''535.104''\<rparr>" decimalLib]
    by (simp add: sent)
  have c7: "ToString decimalLib \<lparr>FieldId = 1, FieldType = 98, Int64 = 0, Float64 = Fin 0, StringVal = []\<rparr> = FailedToConvert"
    using ToString_cases [of "\<lparr>FieldId = 1, FieldType = 98, Int64 = 0, Float64 = Fin 0, StringVal = []\<rparr>" decimalLib]
    by (simp add: types)
  from c1 c2 c3 c4 c5 c6 c7 show ?thesis by blast
qed

section \<open>The power attribution: the fallback on idle partitions\<close>

text \<open>
  Claim C3. For a power sample of a MIG instance whose profile starts with the digit
  \<open>S\<close> and whose value parses as \<open>P\<close>, when every cache entry of the GPU has all five
  utilizations zero (and a non-empty profile, as every instance has), \<open>migDeviceResource\<close>
  returns: the NaN of the division 0/0 is detected, and the result is the \<open>%f\<close> output of
  the naive share \<open>min(90,P)*S/7 + (P - min(90,P))*S/7\<close>.
\<close>

theorem migDeviceResource_all_zero_fallback:
  assumes "FieldID counter = 155" and "profile = p0 # ps" and "atoiByte p0 = Some S"
    and "ParseFloat lib v = Some P" and "cache gpu = Some m"
    and "\<forall>e \<in> set m. ResourceCache e = zeroCache \<and> Profile e \<noteq> []"
  shows "migDeviceResource lib v profile i gpu counter cache
     = Inr (FormatF lib (fadd (fdiv (fmul (min_f (Fin 90) P) (ofInt S)) (Fin 7))
                              (fdiv (fmul (fsub P (min_f (Fin 90) P)) (ofInt S)) (Fin 7))))"
proof -
  from process_all_zero [OF assms(6)] obtain msg where
    "processMigCacheForPower m i (fsub P (min_f (Fin 90) P)) = Inr (Fin 0, Some msg)" by blast
  with assms(1-5) show ?thesis
    by (simp add: migDeviceResource_def Let_def fadd_commute)
qed

theorem migDeviceResource_all_zero_fallback_witness:
  "migDeviceResource decimalLib ''200'' ''3g.20gb'' ''1'' 0 powerCounter [0 \<mapsto> [migIdle]] = Inr ''85.714286''"
proof -
  have "migDeviceResource decimalLib ''200'' ''3g.20gb'' ''1'' 0 powerCounter [0 \<mapsto> [migIdle]]
     = Inr (FormatF decimalLib (fadd (fdiv (fmul (min_f (Fin 90) (Fin 200)) (ofInt 3)) (Fin 7))
                              (fdiv (fmul (fsub (Fin 200) (min_f (Fin 90) (Fin 200))) (ofInt 3)) (Fin 7))))"
    by (rule migDeviceResource_all_zero_fallback [where ?p0.0 = "CHR ''3''" and ps = "''g.20gb''" and m = "[migIdle]"])
       (simp_all add: powerCounter_def atoi3 decimalLib_def parse200 migIdle_def)
  then have "migDeviceResource decimalLib ''200'' ''3g.20gb'' ''1'' 0 powerCounter [0 \<mapsto> [migIdle]]
     = Inr (formatFixed (Fin (600 / 7)))"
    by (simp add: min_f_fin fsub_def ofInt_def decimalLib_def)
  then show ?thesis by (simp only: fmt_n)
qed

section \<open>The power attribution on finite utilizations\<close>

lemma isFin_val: "isFin x \<Longrightarrow> x = Fin (val x)"
  by (cases x) simp_all

lemma finCache_scale: "finCache r \<Longrightarrow> finCache (scaleCache (ofInt s) r)"
  by (auto simp: finCache_def scaleCache_def ofInt_def feature_weights_def dest!: isFin_val)
     (metis fmul.simps(1) isFin.simps(1))+

lemma finCache_add: "finCache t \<Longrightarrow> finCache r \<Longrightarrow> finCache (addCache t r)"
  by (auto simp: finCache_def addCache_def dest!: isFin_val) (metis fadd.simps(1) isFin.simps(1))+

lemma sumCache_fin: "finCache r \<Longrightarrow>
  sumCache r = Fin (val (Tensor r) + val (Dram r) + val (FP64 r) + val (FP32 r) + val (FP16 r))"
proof -
  assume "finCache r"
  then obtain t d a b c where "Tensor r = Fin t" "Dram r = Fin d" "FP64 r = Fin a" "FP32 r = Fin b" "FP16 r = Fin c"
    unfolding finCache_def by (metis isFin_val)
  then show ?thesis by (simp add: sumCache_def)
qed

lemma sumCache_scaled: "finCache r \<Longrightarrow>
  sumCache (scaleCache (ofInt s) r) = Fin (weightedSum (real_of_int s) r)"
proof -
  assume "finCache r"
  then obtain t d a b c where "Tensor r = Fin t" "Dram r = Fin d" "FP64 r = Fin a" "FP32 r = Fin b" "FP16 r = Fin c"
    unfolding finCache_def by (metis isFin_val)
  then show ?thesis
    by (simp add: sumCache_def scaleCache_def ofInt_def feature_weights_def weightedSum_def)
qed

lemma sumCache_add: "finCache t \<Longrightarrow> finCache r \<Longrightarrow>
  val (sumCache (addCache t r)) = val (sumCache t) + val (sumCache r)"
proof -
  assume t: "finCache t" and r: "finCache r"
  from t obtain t1 t2 t3 t4 t5 where "Tensor t = Fin t1" "Dram t = Fin t2" "FP64 t = Fin t3" "FP32 t = Fin t4" "FP16 t = Fin t5"
    unfolding finCache_def by (metis isFin_val)
  moreover from r obtain r1 r2 r3 r4 r5 where "Tensor r = Fin r1" "Dram r = Fin r2" "FP64 r = Fin r3" "FP32 r = Fin r4" "FP16 r = Fin r5"
    unfolding finCache_def by (metis isFin_val)
  ultimately show ?thesis by (simp add: sumCache_def addCache_def)
qed

lemma powerLoop_fin:
  assumes "\<forall>e \<in> set m. sliceCount e \<noteq> None \<and> finCache (ResourceCache e)" and "finCache tot"
  shows "\<exists>tot' inst'. powerLoop m i tot inst = Inr (Inr (tot', inst'))
      \<and> finCache tot'
      \<and> val (sumCache tot') = val (sumCache tot) + (\<Sum>e\<leftarrow>m. weighted e)
      \<and> (i \<notin> ID ` set m \<longrightarrow> inst' = inst)
      \<and> (distinct (map ID m) \<longrightarrow> (\<forall>e \<in> set m. ID e = i \<longrightarrow> sumCache (ResourceCache inst') = Fin (weighted e)))"
  using assms
proof (induction m arbitrary: tot inst)
  case Nil
  then show ?case by simp
next
  case (Cons e m)
  from Cons.prems(1) obtain p0 ps s where p: "Profile e = p0 # ps" and s: "atoiByte p0 = Some s"
    by (cases "Profile e") (auto simp: sliceCount_def)
  have fe: "finCache (ResourceCache e)" using Cons.prems(1) by simp
  let ?sc = "e\<lparr>ResourceCache := scaleCache (ofInt s) (ResourceCache e)\<rparr>"
  let ?tot = "addCache tot (scaleCache (ofInt s) (ResourceCache e))"
  let ?inst = "if ID e = i then ?sc else inst"
  have we: "weighted e = weightedSum (real_of_int s) (ResourceCache e)"
    using p s by (simp add: weighted_def sliceCount_def)
  have step: "powerLoop (e # m) i tot inst = powerLoop m i ?tot ?inst"
    using p s by (simp add: Let_def)
  have ft: "finCache ?tot" using Cons.prems(2) fe by (simp add: finCache_add finCache_scale)
  have rest: "\<forall>e \<in> set m. sliceCount e \<noteq> None \<and> finCache (ResourceCache e)"
    using Cons.prems(1) by simp
  from Cons.IH [OF rest ft, of ?inst] obtain tot' inst' where
    r: "powerLoop m i ?tot ?inst = Inr (Inr (tot', inst'))"
    and f': "finCache tot'"
    and sum': "val (sumCache tot') = val (sumCache ?tot) + (\<Sum>e\<leftarrow>m. weighted e)"
    and keep: "i \<notin> ID ` set m \<longrightarrow> inst' = ?inst"
    and hit: "distinct (map ID m) \<longrightarrow> (\<forall>e \<in> set m. ID e = i \<longrightarrow> sumCache (ResourceCache inst') = Fin (weighted e))"
    by blast
  have s1: "val (sumCache ?tot) = val (sumCache tot) + weighted e"
    using Cons.prems(2) fe by (simp add: sumCache_add finCache_scale sumCache_scaled we)
  have a: "val (sumCache tot') = val (sumCache tot) + (\<Sum>e\<leftarrow>e # m. weighted e)"
    using sum' s1 by simp
  have b: "i \<notin> ID ` set (e # m) \<longrightarrow> inst' = inst"
    using keep by auto
  have c: "distinct (map ID (e # m)) \<longrightarrow> (\<forall>x \<in> set (e # m). ID x = i \<longrightarrow> sumCache (ResourceCache inst') = Fin (weighted x))"
  proof (intro impI ballI)
    fix x assume d: "distinct (map ID (e # m))" and x: "x \<in> set (e # m)" and ix: "ID x = i"
    show "sumCache (ResourceCache inst') = Fin (weighted x)"
    proof (cases "x = e")
      case True
      with d ix have "i \<notin> ID ` set m" by auto
      with keep True ix have "inst' = ?sc" by simp
      then show ?thesis using True fe by (simp add: sumCache_scaled we)
    next
      case False
      with x have "x \<in> set m" by simp
      with hit d ix show ?thesis by simp
    qed
  qed
  from step r have "powerLoop (e # m) i tot inst = Inr (Inr (tot', inst'))"
    by (rule trans)
  with f' a b c show ?case by blast
qed

lemma sum_list_scaled: "(\<Sum>e\<leftarrow>m. a * f e / (w::real)) = a * (\<Sum>e\<leftarrow>m. f e) / w"
  by (induction m) (simp_all add: add_divide_distrib distrib_left)

lemma member_le_sum_list_real:
  "\<forall>x \<in> set m. 0 \<le> f x \<Longrightarrow> e \<in> set m \<Longrightarrow> f e \<le> (\<Sum>x\<leftarrow>m. (f x :: real))"
proof (induction m)
  case Nil
  then show ?case by simp
next
  case (Cons y m)
  have rest: "0 \<le> (\<Sum>x\<leftarrow>m. f x)"
    using Cons.prems(1) by (intro sum_list_nonneg) auto
  show ?case
  proof (cases "e = y")
    case True
    with rest show ?thesis by simp
  next
    case False
    with Cons have "f e \<le> (\<Sum>x\<leftarrow>m. f x)" by simp
    moreover have "0 \<le> f y" using Cons.prems(1) by simp
    ultimately show ?thesis by simp
  qed
qed

lemma weighted_nonneg:
  "nonnegCache (ResourceCache e) \<Longrightarrow> 0 \<le> weighted e"
proof -
  assume n: "nonnegCache (ResourceCache e)"
  have "0 \<le> s" if "atoiByte c = Some s" for c s
    using that by (auto simp: atoiByte_def split: if_splits)
  then show ?thesis using n
    by (auto simp: weighted_def weightedSum_def nonnegCache_def sliceCount_def
        split: option.splits list.splits)
qed

text \<open>
  Claim C1, as amended. For a power sample (field id 155) of a MIG instance whose GPU's
  cache holds only the entry of that instance, with finite utilizations, the attributed
  power is \<open>idle_share + active_share\<close> with \<open>idle = min(90, P)\<close> and
  \<open>idle_share = idle * S / 7\<close>, where \<open>active_share\<close> is the whole active power
  \<open>P - idle\<close> when the weighted utilization of the instance is not zero, and the naive
  share \<open>(P - idle) * S / 7\<close> when it is zero.
\<close>

theorem migDeviceResource_single_entry:
  assumes "FieldID counter = 155" and "profile = p0 # ps" and "atoiByte p0 = Some S"
    and "ParseFloat lib v = Some (Fin P)" and "cache gpu = Some [e]"
    and "ID e = i" and "Profile e = profile" and "finCache (ResourceCache e)"
  shows "migDeviceResource lib v profile i gpu counter cache
     = Inr (FormatF lib (Fin (min 90 P * real_of_int S / 7
          + (if weighted e = 0 then (P - min 90 P) * real_of_int S / 7 else P - min 90 P))))"
proof -
  let ?a = "P - min 90 P"
  have sl: "\<forall>x \<in> set [e]. sliceCount x \<noteq> None \<and> finCache (ResourceCache x)"
    using assms by (simp add: sliceCount_def)
  have fz: "finCache zeroCache" by (simp add: finCache_def zeroCache_def)
  from powerLoop_fin [OF sl fz, of i zeroMig] obtain tot' inst' where
    r: "powerLoop [e] i zeroCache zeroMig = Inr (Inr (tot', inst'))"
    and f': "finCache tot'"
    and sum': "val (sumCache tot') = val (sumCache zeroCache) + (\<Sum>x\<leftarrow>[e]. weighted x)"
    and hit: "distinct (map ID [e]) \<longrightarrow> (\<forall>x \<in> set [e]. ID x = i \<longrightarrow> sumCache (ResourceCache inst') = Fin (weighted x))"
    by blast
  from hit assms(6) have i: "sumCache (ResourceCache inst') = Fin (weighted e)" by simp
  from f' have "sumCache tot' = Fin (val (sumCache tot'))" by (simp add: sumCache_fin)
  with sum' have t: "sumCache tot' = Fin (weighted e)" by (simp add: sumCache_zero)
  have p: "processMigCacheForPower [e] i (Fin ?a)
      = (if weighted e = 0 then Inr (Fin 0, Some ''Error computing active power'') else Inr (Fin ?a, None))"
    unfolding processMigCacheForPower_def r using i t
    by (simp add: Let_def fne_def sgnInf_def)
  show ?thesis
    using assms(1-5) p
    by (simp add: migDeviceResource_def Let_def min_f_fin fsub_def ofInt_def add.commute)
qed

theorem migDeviceResource_single_entry_witness:
  "migDeviceResource decimalLib ''200'' ''7g.40gb'' ''0'' 0 powerCounter [0 \<mapsto> [migFull]] = Inr ''200.000000''"
proof -
  have a7: "atoiByte (CHR ''7'') = Some 7" by (simp add: atoiByte_def)
  have ff: "finCache (ResourceCache migFull)" by (simp add: migFull_def finCache_def)
  have fl: "ID migFull = ''0''" "Profile migFull = ''7g.40gb''" by (simp_all add: migFull_def)
  have w: "weighted migFull \<noteq> 0"
    by (simp add: weighted_def sliceCount_def migFull_def a7 weightedSum_def)
  have "migDeviceResource decimalLib ''200'' ''7g.40gb'' ''0'' 0 powerCounter [0 \<mapsto> [migFull]]
      = Inr (FormatF decimalLib (Fin (min 90 200 * real_of_int 7 / 7
          + (if weighted migFull = 0 then (200 - min 90 200) * real_of_int 7 / 7 else 200 - min 90 200))))"
    by (rule migDeviceResource_single_entry [where ?p0.0 = "CHR ''7''" and ps = "''g.40gb''"])
       (simp_all add: powerCounter_def a7 decimalLib_def parse200 fl ff)
  then have "migDeviceResource decimalLib ''200'' ''7g.40gb'' ''0'' 0 powerCounter [0 \<mapsto> [migFull]]
      = Inr (formatFixed (Fin 200))"
    by (simp add: w decimalLib_def)
  then show ?thesis by (simp only: fmt_full)
qed

text \<open>
  Claim C1 as stated fails: for the single partition \<open>3g.20gb\<close> with tensor activity 0.5
  and a measured power of 200, the collector reports \<open>90*3/7 + 110\<close>, that is
  148.571429, where the naive formula of the claim gives \<open>90*3/7 + 110*3/7\<close>, that is
  85.714286.
\<close>

theorem migDeviceResource_single_entry_counterexample:
  "migDeviceResource decimalLib ''200'' ''3g.20gb'' ''1'' 0 powerCounter [0 \<mapsto> [migA]] = Inr ''148.571429''
   \<and> FormatF decimalLib (Fin (min 90 200 * 3 / 7 + (200 - min 90 200) * 3 / 7)) = ''85.714286''
   \<and> migDeviceResource decimalLib ''200'' ''3g.20gb'' ''1'' 0 powerCounter [0 \<mapsto> [migA]]
         \<noteq> Inr (FormatF decimalLib (Fin (min 90 200 * 3 / 7 + (200 - min 90 200) * 3 / 7)))"
proof -
  have "migDeviceResource decimalLib ''200'' ''3g.20gb'' ''1'' 0 powerCounter [0 \<mapsto> [migA]]
      = Inr (formatFixed (Fin (1040 / 7)))"
    by (simp add: migDeviceResource_def powerCounter_def atoi3 decimalLib_def parse200
        processMigCacheForPower_def migA_def zeroCache_def zeroMig_def scaleCache_def addCache_def
        sumCache_def feature_weights_def ofInt_def min_f_def fsub_def fne_def Let_def
        del: formatFixed.simps)
  then have code: "migDeviceResource decimalLib ''200'' ''3g.20gb'' ''1'' 0 powerCounter [0 \<mapsto> [migA]]
      = Inr ''148.571429''"
    by (simp only: fmt_w)
  have "FormatF decimalLib (Fin (min 90 200 * 3 / 7 + (200 - min 90 200) * 3 / 7)) = formatFixed (Fin (600 / 7))"
    by (simp add: decimalLib_def)
  then have claim: "FormatF decimalLib (Fin (min 90 200 * 3 / 7 + (200 - min 90 200) * 3 / 7)) = ''85.714286''"
    by (simp only: fmt_n)
  from code claim show ?thesis by simp
qed

text \<open>
  Claim C2. For a GPU whose cache entries all have a profile that starts with a digit,
  finite non-negative utilizations and pairwise different instance ids, and of which
  at least one has a non-zero weighted utilization, \<open>processMigCacheForPower\<close> returns
  for every instance its share \<open>active * weighted / total\<close> without an error, and the
  shares of all instances of the GPU add up to the active power.
\<close>

theorem processMigCacheForPower_conserves_active:
  assumes ok: "\<forall>e \<in> set m. sliceCount e \<noteq> None \<and> finCache (ResourceCache e) \<and> nonnegCache (ResourceCache e)"
    and d: "distinct (map ID m)"
    and nz: "\<exists>e \<in> set m. weighted e \<noteq> 0"
  shows "(\<forall>e \<in> set m. processMigCacheForPower m (ID e) (Fin active)
            = Inr (Fin (active * weighted e / (\<Sum>x\<leftarrow>m. weighted x)), None))
      \<and> (\<Sum>e\<leftarrow>m. active * weighted e / (\<Sum>x\<leftarrow>m. weighted x)) = active"
proof -
  let ?W = "\<Sum>x\<leftarrow>m. weighted x"
  have nn: "\<forall>e \<in> set m. 0 \<le> weighted e" using ok weighted_nonneg by blast
  from nz obtain e0 where e0: "e0 \<in> set m" "weighted e0 \<noteq> 0" by blast
  with nn have "0 < weighted e0" by fastforce
  moreover have "weighted e0 \<le> ?W"
    using nn e0(1) by (rule member_le_sum_list_real)
  ultimately have W: "0 < ?W" by linarith
  have fz: "finCache zeroCache" by (simp add: finCache_def zeroCache_def)
  have ok': "\<forall>e \<in> set m. sliceCount e \<noteq> None \<and> finCache (ResourceCache e)" using ok by simp
  have each: "processMigCacheForPower m (ID e) (Fin active) = Inr (Fin (active * weighted e / ?W), None)"
    if e: "e \<in> set m" for e
  proof -
    from powerLoop_fin [OF ok' fz, of "ID e" zeroMig] obtain tot' inst' where
      r: "powerLoop m (ID e) zeroCache zeroMig = Inr (Inr (tot', inst'))"
      and f': "finCache tot'"
      and sum': "val (sumCache tot') = val (sumCache zeroCache) + ?W"
      and hit: "distinct (map ID m) \<longrightarrow> (\<forall>x \<in> set m. ID x = ID e \<longrightarrow> sumCache (ResourceCache inst') = Fin (weighted x))"
      by blast
    from hit d e have i: "sumCache (ResourceCache inst') = Fin (weighted e)" by simp
    from f' have "sumCache tot' = Fin (val (sumCache tot'))"
      by (simp add: sumCache_fin)
    with sum' have t: "sumCache tot' = Fin ?W" by (simp add: sumCache_zero)
    from r i t W show ?thesis
      by (simp add: processMigCacheForPower_def Let_def fne_def)
  qed
  have "(\<Sum>e\<leftarrow>m. active * weighted e / ?W) = active * ?W / ?W"
    by (rule sum_list_scaled)
  with W have "(\<Sum>e\<leftarrow>m. active * weighted e / ?W) = active" by simp
  with each show ?thesis by blast
qed

theorem processMigCacheForPower_conserves_active_witness:
  "processMigCacheForPower [migA, migB] ''1'' (Fin 110) = Inr (Fin (110 * 0.507 / 0.6422), None)
   \<and> processMigCacheForPower [migA, migB] ''2'' (Fin 110) = Inr (Fin (110 * 0.1352 / 0.6422), None)
   \<and> 110 * 0.507 / 0.6422 + 110 * 0.1352 / 0.6422 = (110 :: real)"
proof -
  have a4: "atoiByte (CHR ''4'') = Some 4" by (simp add: atoiByte_def)
  have wa: "weighted migA = 0.507"
    by (simp add: weighted_def sliceCount_def migA_def atoi3 weightedSum_def)
  have wb: "weighted migB = 0.1352"
    by (simp add: weighted_def sliceCount_def migB_def a4 weightedSum_def)
  have ok: "\<forall>e \<in> set [migA, migB]. sliceCount e \<noteq> None \<and> finCache (ResourceCache e) \<and> nonnegCache (ResourceCache e)"
    by (simp add: sliceCount_def migA_def migB_def atoi3 a4 finCache_def nonnegCache_def)
  have d: "distinct (map ID [migA, migB])" by (simp add: migA_def migB_def)
  have nz: "\<exists>e \<in> set [migA, migB]. weighted e \<noteq> 0" using wa by simp
  from processMigCacheForPower_conserves_active [OF ok d nz, of 110] show ?thesis
    by (simp add: wa wb migA_fields migB_fields)
qed


section \<open>One pass of a metric builder\<close>

lemma metricsOf_append:
  "metricsOf (appendMetric st m) k = (if k = Counter m then metricsOf st k @ [m] else metricsOf st k)"
  by (simp add: appendMetric_def metricsOf_def)

lemma metricsOf_setLabel: "metricsOf (setLabel st a n v) k = metricsOf st k"
  by (simp add: setLabel_def metricsOf_def)

lemma store_append: "labelStore (appendMetric st m) = labelStore st" "nextRef (appendMetric st m) = nextRef st"
  by (simp_all add: appendMetric_def)

lemma store_setLabel:
  "labelStore (setLabel st a n v) a = (labelStore st a)(n \<mapsto> v)"
  "b \<noteq> a \<Longrightarrow> labelStore (setLabel st a n v) b = labelStore st b"
  "nextRef (setLabel st a n v) = nextRef st"
  by (simp_all add: setLabel_def)

lemma upd_add_rev: "m(n \<mapsto> v) ++ map_of (rev ps) = m ++ map_of (rev ((n, v) # ps))"
proof -
  have "m(n \<mapsto> v) = m ++ [n \<mapsto> v]" by simp
  then have "m(n \<mapsto> v) ++ map_of (rev ps) = m ++ ([n \<mapsto> v] ++ map_of (rev ps))"
    by (simp only: map_add_assoc)
  also have "[n \<mapsto> v] ++ map_of (rev ps) = map_of (rev ((n, v) # ps))"
    by (simp add: map_of_append)
  finally show ?thesis .
qed

lemma scanCounters_Some: "scanCounters c f = Some x \<Longrightarrow> FieldID x = f \<and> x \<in> set c"
  by (induction c) (auto split: if_splits)

lemma FindCounterField_found:
  "FindCounterField c f = Inr (counter, None) \<Longrightarrow> FieldID counter = f \<and> counter \<in> set c"
  by (auto simp: FindCounterField_def split: option.splits list.splits dest: scanCounters_Some)

lemma entityLoop_step:
  "entityLoop lib (x # xs) c mi useOld hostname dev a st =
     (case FindCounterField c (FieldId x) of
        Inl f \<Rightarrow> Inl f
      | Inr (counter, Some err) \<Rightarrow> entityLoop lib xs c mi useOld hostname dev a st
      | Inr (counter, None) \<Rightarrow>
          if PromType counter = ''label''
          then entityLoop lib xs c mi useOld hostname dev a (setLabel st a (FieldName counter) (ToString lib x))
          else if ToString lib x = SkipDCGMValue
          then entityLoop lib xs c mi useOld hostname dev a st
          else entityLoop lib xs c mi useOld hostname dev a
                 (appendMetric st
                    \<lparr>Counter = counter, Value = ToString lib x, UUID = (if useOld then ''uuid'' else ''UUID''),
                     GPU = showNat (EntityId (Entity mi)), GPUUUID = [],
                     GPUDevice = dev, GPUModelName = [], Hostname = hostname,
                     Labels = a, Attributes = None, MigProfile = [],
                     GPUInstanceID = []\<rparr>))"
  by (simp add: Let_def split: sum.splits option.splits prod.splits)

declare entityLoop.simps(2) [simp del]

lemma toMetricLoop_step:
  "toMetricLoop lib (x # xs) c d inst useOld hostname rb cache a st =
     (if ToString lib x = SkipDCGMValue
      then toMetricLoop lib xs c d inst useOld hostname rb cache a st
      else case FindCounterField c (FieldId x) of
        Inl f \<Rightarrow> Inl f
      | Inr (counter, Some err) \<Rightarrow> toMetricLoop lib xs c d inst useOld hostname rb cache a st
      | Inr (counter, None) \<Rightarrow>
          if PromType counter = ''label''
          then toMetricLoop lib xs c d inst useOld hostname rb cache a
                 (setLabel st a (FieldName counter) (ToString lib x))
          else case inst of
            None \<Rightarrow> toMetricLoop lib xs c d inst useOld hostname rb cache a
                     (appendMetric st (gpuMetric counter (ToString lib x) d useOld hostname rb a))
          | Some i \<Rightarrow>
             (case migDeviceResource lib (ToString lib x) (ProfileName i) (showNat (NvmlInstanceId i))
                           (Device_GPU d) counter cache of
                Inl f \<Rightarrow> Inl f
              | Inr v' \<Rightarrow> toMetricLoop lib xs c d inst useOld hostname rb cache a
                  (appendMetric st ((gpuMetric counter (ToString lib x) d useOld hostname rb a)
                     \<lparr>MigProfile := ProfileName i, GPUInstanceID := showNat (NvmlInstanceId i), Value := v'\<rparr>))))"
  by (simp add: Let_def gpuMetric_def split: sum.splits option.splits prod.splits)

declare toMetricLoop.simps(2) [simp del]

lemma metricLabelPairs_Cons:
  "metricLabelPairs lib c (x # xs) =
     (if ToString lib x \<noteq> SkipDCGMValue \<and> isLabelSample c x
      then (labelName c x, ToString lib x) # metricLabelPairs lib c xs
      else metricLabelPairs lib c xs)"
  by (simp add: metricLabelPairs_def entityLabelPairs_def)

lemma passInv_refl: "passInv a [] P st st"
  by (simp add: passInv_def)

lemma passInv_label:
  "passInv a ps P (setLabel st a n v) st' \<Longrightarrow> passInv a ((n, v) # ps) P st st'"
  unfolding passInv_def
  by (simp only: store_setLabel metricsOf_setLabel upd_add_rev) (metis store_setLabel(2))

lemma passInv_append:
  assumes "passInv a ps P (appendMetric st m) st'" and "Labels m = a" and "PromType (Counter m) \<noteq> ''label''" and "P m"
  shows "passInv a ps P st st'"
proof -
  have "\<exists>new. metricsOf st' k = metricsOf st k @ new
            \<and> (\<forall>m \<in> set new. Labels m = a \<and> PromType (Counter m) \<noteq> ''label'' \<and> P m)" for k
  proof -
    from assms(1) obtain new where n: "metricsOf st' k = metricsOf (appendMetric st m) k @ new"
      "\<forall>m \<in> set new. Labels m = a \<and> PromType (Counter m) \<noteq> ''label'' \<and> P m"
      unfolding passInv_def by blast
    show ?thesis
    proof (cases "k = Counter m")
      case True
      with n have "metricsOf st' k = metricsOf st k @ (m # new)" by (simp add: metricsOf_append)
      moreover have "\<forall>m \<in> set (m # new). Labels m = a \<and> PromType (Counter m) \<noteq> ''label'' \<and> P m"
        using n(2) assms(2-4) by simp
      ultimately show ?thesis by blast
    next
      case False
      with n show ?thesis by (auto simp: metricsOf_append)
    qed
  qed
  with assms(1) show ?thesis unfolding passInv_def by (simp add: store_append)
qed

lemma passInv_weaken: "passInv a ps P st st' \<Longrightarrow> (\<And>m. P m \<Longrightarrow> Q m) \<Longrightarrow> passInv a ps Q st st'"
  unfolding passInv_def by blast

lemma entityLabelPairs_Cons:
  "entityLabelPairs lib c (x # xs) =
     (if isLabelSample c x then (labelName c x, ToString lib x) # entityLabelPairs lib c xs
      else entityLabelPairs lib c xs)"
  by (simp add: entityLabelPairs_def)

lemma entityLoop_inv:
  "entityLoop lib values c mi useOld hostname dev a st = Inr st' \<Longrightarrow>
   passInv a (entityLabelPairs lib c values)
     (\<lambda>m. Value m \<noteq> SkipDCGMValue \<and> (\<exists>x \<in> set values. Value m = ToString lib x \<and> FieldID (Counter m) = FieldId x)) st st'"
proof (induction "values" arbitrary: st)
  case Nil
  then show ?case by (simp add: entityLabelPairs_def passInv_refl)
next
  case (Cons x xs)
  let ?P = "\<lambda>vs m. Value m \<noteq> SkipDCGMValue \<and> (\<exists>x \<in> set vs. Value m = ToString lib x \<and> FieldID (Counter m) = FieldId x)"
  have mono: "passInv a ps (?P xs) s s' \<Longrightarrow> passInv a ps (?P (x # xs)) s s'" for ps s s'
    by (erule passInv_weaken) auto
  show ?case
  proof (cases "FindCounterField c (FieldId x)")
    case (Inl f)
    with Cons.prems show ?thesis by (simp add: entityLoop_step)
  next
    case (Inr r)
    obtain counter err where r: "r = (counter, err)" by (cases r)
    show ?thesis
    proof (cases err)
      case (Some e)
      with Inr r Cons.prems have "entityLoop lib xs c mi useOld hostname dev a st = Inr st'"
        by (simp add: entityLoop_step)
      from mono [OF Cons.IH [OF this]] Inr r Some show ?thesis
        by (simp add: entityLabelPairs_Cons isLabelSample_def)
    next
      case None
      have fid: "FieldID counter = FieldId x"
        using Inr r None FindCounterField_found by blast
      show ?thesis
      proof (cases "PromType counter = ''label''")
        case True
        with Inr r None Cons.prems have
          "entityLoop lib xs c mi useOld hostname dev a (setLabel st a (FieldName counter) (ToString lib x)) = Inr st'"
          by (simp add: entityLoop_step)
        from passInv_label [OF mono [OF Cons.IH [OF this]]] Inr r None True show ?thesis
          by (simp add: entityLabelPairs_Cons isLabelSample_def labelName_def)
      next
        case False
        show ?thesis
        proof (cases "ToString lib x = SkipDCGMValue")
          case True
          with Inr r None False Cons.prems have "entityLoop lib xs c mi useOld hostname dev a st = Inr st'"
            by (simp add: entityLoop_step)
          from mono [OF Cons.IH [OF this]] Inr r None False show ?thesis
            by (simp add: entityLabelPairs_Cons isLabelSample_def)
        next
          case nskip: False
          let ?m = "\<lparr>Counter = counter, Value = ToString lib x, UUID = (if useOld then ''uuid'' else ''UUID''),
                     GPU = showNat (EntityId (Entity mi)), GPUUUID = [],
                     GPUDevice = dev, GPUModelName = [], Hostname = hostname,
                     Labels = a, Attributes = None, MigProfile = [],
                     GPUInstanceID = []\<rparr>"
          from Inr r None False nskip Cons.prems have
            "entityLoop lib xs c mi useOld hostname dev a (appendMetric st ?m) = Inr st'"
            by (simp add: entityLoop_step)
          from mono [OF Cons.IH [OF this]] have
            "passInv a (entityLabelPairs lib c xs) (?P (x # xs)) (appendMetric st ?m) st'" .
          then have "passInv a (entityLabelPairs lib c xs) (?P (x # xs)) st st'"
            by (rule passInv_append) (use False nskip fid in simp_all)
          with Inr r None False show ?thesis
            by (simp add: entityLabelPairs_Cons isLabelSample_def)
        qed
      qed
    qed
  qed
qed

lemma fromSample_Cons: "fromSample lib xs d inst cache m \<Longrightarrow> fromSample lib (x # xs) d inst cache m"
  by (auto simp: fromSample_def)

lemma toMetricLoop_inv:
  "toMetricLoop lib values c d inst useOld hostname rb cache a st = Inr st' \<Longrightarrow>
   passInv a (metricLabelPairs lib c values) (fromSample lib values d inst cache) st st'"
proof (induction "values" arbitrary: st)
  case Nil
  then show ?case by (simp add: metricLabelPairs_def entityLabelPairs_def passInv_refl)
next
  case (Cons x xs)
  have mono: "passInv a ps (fromSample lib xs d inst cache) s s'
      \<Longrightarrow> passInv a ps (fromSample lib (x # xs) d inst cache) s s'" for ps s s'
    by (erule passInv_weaken) (rule fromSample_Cons)
  show ?case
  proof (cases "ToString lib x = SkipDCGMValue")
    case True
    with Cons.prems have "toMetricLoop lib xs c d inst useOld hostname rb cache a st = Inr st'"
      by (simp add: toMetricLoop_step)
    from mono [OF Cons.IH [OF this]] True show ?thesis
      by (simp add: metricLabelPairs_Cons)
  next
    case nskip: False
    show ?thesis
    proof (cases "FindCounterField c (FieldId x)")
      case (Inl f)
      with Cons.prems nskip show ?thesis by (simp add: toMetricLoop_step)
    next
      case (Inr r)
      obtain counter err where r: "r = (counter, err)" by (cases r)
      show ?thesis
      proof (cases err)
        case (Some e)
        with Inr r nskip Cons.prems have "toMetricLoop lib xs c d inst useOld hostname rb cache a st = Inr st'"
          by (simp add: toMetricLoop_step)
        from mono [OF Cons.IH [OF this]] Inr r Some show ?thesis
          by (simp add: metricLabelPairs_Cons isLabelSample_def)
      next
        case None
        have fid: "FieldID counter = FieldId x"
          using Inr r None FindCounterField_found by blast
        show ?thesis
        proof (cases "PromType counter = ''label''")
          case True
          with Inr r None nskip Cons.prems have
            "toMetricLoop lib xs c d inst useOld hostname rb cache a
               (setLabel st a (FieldName counter) (ToString lib x)) = Inr st'"
            by (simp add: toMetricLoop_step)
          from passInv_label [OF mono [OF Cons.IH [OF this]]] Inr r None True nskip show ?thesis
            by (simp add: metricLabelPairs_Cons isLabelSample_def labelName_def)
        next
          case False
          have pairs: "metricLabelPairs lib c (x # xs) = metricLabelPairs lib c xs"
            using Inr r None False by (simp add: metricLabelPairs_Cons isLabelSample_def)
          show ?thesis
          proof (cases inst)
            case noinst: None
            let ?m = "gpuMetric counter (ToString lib x) d useOld hostname rb a"
            from Inr r None False nskip noinst Cons.prems have
              "toMetricLoop lib xs c d inst useOld hostname rb cache a (appendMetric st ?m) = Inr st'"
              by (simp add: toMetricLoop_step)
            from mono [OF Cons.IH [OF this]] have
              "passInv a (metricLabelPairs lib c xs) (fromSample lib (x # xs) d inst cache) (appendMetric st ?m) st'" .
            then have "passInv a (metricLabelPairs lib c xs) (fromSample lib (x # xs) d inst cache) st st'"
              by (rule passInv_append)
                 (use False nskip fid noinst in \<open>simp_all add: gpuMetric_def fromSample_def\<close>)
            with pairs show ?thesis by simp
          next
            case (Some i)
            show ?thesis
            proof (cases "migDeviceResource lib (ToString lib x) (ProfileName i) (showNat (NvmlInstanceId i))
                           (Device_GPU d) counter cache")
              case (Inl f)
              with Inr r None False nskip Some Cons.prems show ?thesis
                by (simp add: toMetricLoop_step)
            next
              case res: (Inr v')
              let ?m = "(gpuMetric counter (ToString lib x) d useOld hostname rb a)
                     \<lparr>MigProfile := ProfileName i, GPUInstanceID := showNat (NvmlInstanceId i), Value := v'\<rparr>"
              from Inr r None False nskip Some res Cons.prems have
                "toMetricLoop lib xs c d inst useOld hostname rb cache a (appendMetric st ?m) = Inr st'"
                by (simp add: toMetricLoop_step)
              from mono [OF Cons.IH [OF this]] have
                "passInv a (metricLabelPairs lib c xs) (fromSample lib (x # xs) d inst cache) (appendMetric st ?m) st'" .
              then have "passInv a (metricLabelPairs lib c xs) (fromSample lib (x # xs) d inst cache) st st'"
                by (rule passInv_append)
                   (use False nskip fid Some res in \<open>simp_all add: gpuMetric_def fromSample_def\<close>)
              with pairs show ?thesis by simp
            qed
          qed
        qed
      qed
    qed
  qed
qed

lemma passInv_emitted:
  assumes "passInv a ps P st st'"
  shows "metricsOf st' k = metricsOf st k @ emitted st st' k"
    and "\<forall>m \<in> set (emitted st st' k). Labels m = a \<and> PromType (Counter m) \<noteq> ''label'' \<and> P m"
proof -
  from assms obtain new where n: "metricsOf st' k = metricsOf st k @ new"
    "\<forall>m \<in> set new. Labels m = a \<and> PromType (Counter m) \<noteq> ''label'' \<and> P m"
    unfolding passInv_def by blast
  then have "emitted st st' k = new" by (simp add: emitted_def)
  with n show "metricsOf st' k = metricsOf st k @ emitted st st' k"
    and "\<forall>m \<in> set (emitted st st' k). Labels m = a \<and> PromType (Counter m) \<noteq> ''label'' \<and> P m"
    by simp_all
qed

lemma passInv_fresh:
  assumes "passInv (nextRef st) ps P (snd (newLabels st)) st'"
  shows "labelStore st' (nextRef st) = map_of (rev ps)"
    and "metricsOf st' k = metricsOf st k @ emitted st st' k"
    and "\<forall>m \<in> set (emitted st st' k). Labels m = nextRef st \<and> PromType (Counter m) \<noteq> ''label'' \<and> P m"
proof -
  have m: "metricsOf (snd (newLabels st)) k = metricsOf st k" for k
    by (simp add: newLabels_def metricsOf_def)
  then have e: "emitted (snd (newLabels st)) st' k = emitted st st' k"
    by (simp add: emitted_def)
  from assms show "labelStore st' (nextRef st) = map_of (rev ps)"
    by (simp add: passInv_def newLabels_def)
  from passInv_emitted [OF assms, of k] m e
  show "metricsOf st' k = metricsOf st k @ emitted st st' k"
    and "\<forall>m \<in> set (emitted st st' k). Labels m = nextRef st \<and> PromType (Counter m) \<noteq> ''label'' \<and> P m"
    by simp_all
qed

lemma map_of_rev_distinct:
  "distinct (map fst ps) \<Longrightarrow> (n, v) \<in> set ps \<Longrightarrow> map_of (rev ps) n = Some v"
  by (rule map_of_is_SomeI) (simp_all add: rev_map [symmetric])

lemma ToMetric_pass:
  "ToMetric lib st values c d inst useOld hostname rb cache = Inr st' \<Longrightarrow>
   passInv (nextRef st) (metricLabelPairs lib c values) (fromSample lib values d inst cache) (snd (newLabels st)) st'"
  by (rule toMetricLoop_inv [where useOld = useOld and hostname = hostname and rb = rb and c = c])
     (simp add: ToMetric_def newLabels_def)

lemma ToSwitchMetric_pass:
  "ToSwitchMetric lib st values c mi useOld hostname = Inr st' \<Longrightarrow>
   passInv (nextRef st) (entityLabelPairs lib c values)
     (\<lambda>m. Value m \<noteq> SkipDCGMValue \<and> (\<exists>x \<in> set values. Value m = ToString lib x \<and> FieldID (Counter m) = FieldId x))
     (snd (newLabels st)) st'"
  by (rule entityLoop_inv [where useOld = useOld and hostname = hostname and mi = mi
        and dev = "''nvswitch'' @ showNat (ParentId mi)"])
     (simp add: ToSwitchMetric_def newLabels_def)

lemma ToCPUMetric_pass:
  "ToCPUMetric lib st values c mi useOld hostname = Inr st' \<Longrightarrow>
   passInv (nextRef st) (entityLabelPairs lib c values)
     (\<lambda>m. Value m \<noteq> SkipDCGMValue \<and> (\<exists>x \<in> set values. Value m = ToString lib x \<and> FieldID (Counter m) = FieldId x))
     (snd (newLabels st)) st'"
  by (rule entityLoop_inv [where useOld = useOld and hostname = hostname and mi = mi
        and dev = "showNat (ParentId mi)"])
     (simp add: ToCPUMetric_def newLabels_def)

lemma FindCounterField_nonempty: "c \<noteq> [] \<Longrightarrow> \<exists>r. FindCounterField c f = Inr r"
  by (cases c; cases "scanCounters c f") (simp_all add: FindCounterField_def)

lemma entityLoop_total:
  "c \<noteq> [] \<Longrightarrow> \<exists>st'. entityLoop lib values c mi useOld hostname dev a st = Inr st'"
proof (induction "values" arbitrary: st)
  case Nil
  then show ?case by simp
next
  case (Cons x xs)
  from FindCounterField_nonempty [OF Cons.prems] obtain counter err where
    "FindCounterField c (FieldId x) = Inr (counter, err)" by fastforce
  with Cons.IH [OF Cons.prems] show ?case
    by (cases err) (simp_all add: entityLoop_step)
qed

lemma toMetricLoop_total:
  "c \<noteq> [] \<Longrightarrow> \<exists>st'. toMetricLoop lib values c d None useOld hostname rb cache a st = Inr st'"
proof (induction "values" arbitrary: st)
  case Nil
  then show ?case by simp
next
  case (Cons x xs)
  from FindCounterField_nonempty [OF Cons.prems] obtain counter err where
    "FindCounterField c (FieldId x) = Inr (counter, err)" by fastforce
  with Cons.IH [OF Cons.prems] show ?case
    by (cases err) (simp_all add: toMetricLoop_step)
qed

lemma toMetricLoop_cache_unused:
  "toMetricLoop lib values c d None useOld hostname rb cache a st
     = toMetricLoop lib values c d None useOld hostname rb cache' a st"
proof (induction "values" arbitrary: st)
  case Nil
  then show ?case by simp
next
  case (Cons x xs)
  show ?case
    by (simp add: toMetricLoop_step Cons.IH split: sum.splits option.splits prod.splits)
qed

lemma toMetricLoop_ignores_skip:
  "toMetricLoop lib values c d inst useOld hostname rb cache a st
     = toMetricLoop lib (filter (\<lambda>x. ToString lib x \<noteq> SkipDCGMValue) values) c d inst useOld hostname rb cache a st"
proof (induction "values" arbitrary: st)
  case Nil
  then show ?case by simp
next
  case (Cons x xs)
  show ?case
  proof (cases inst)
    case None
    have IH: "toMetricLoop lib (filter (\<lambda>x. ToString lib x \<noteq> SkipDCGMValue) xs) c d None useOld hostname rb cache a s
        = toMetricLoop lib xs c d None useOld hostname rb cache a s" for s
      using Cons.IH [of s] None by simp
    show ?thesis unfolding None
      by (simp add: toMetricLoop_step IH split: sum.splits option.splits prod.splits)
  next
    case (Some i)
    have IH: "toMetricLoop lib (filter (\<lambda>x. ToString lib x \<noteq> SkipDCGMValue) xs) c d (Some i) useOld hostname rb cache a s
        = toMetricLoop lib xs c d (Some i) useOld hostname rb cache a s" for s
      using Cons.IH [of s] Some by simp
    show ?thesis unfolding Some
      by (simp add: toMetricLoop_step IH split: sum.splits option.splits prod.splits)
  qed
qed

section \<open>Evaluation of the builders on the examples\<close>

lemma sample_strings:
  "ToString decimalLib powerSample = ''200.000000''"
  "ToString decimalLib driverSample = ''535.104''"
  "ToString decimalLib blankDriverSample = SkipDCGMValue"
proof -
  have types: "DCGM_FT_DOUBLE \<noteq> DCGM_FT_INT64" "DCGM_FT_STRING \<noteq> DCGM_FT_INT64"
    "DCGM_FT_STRING \<noteq> DCGM_FT_DOUBLE"
    by (simp_all add: DCGM_FT_DOUBLE_def DCGM_FT_INT64_def DCGM_FT_STRING_def)
  show "ToString decimalLib powerSample = ''200.000000''"
    using types
    by (simp add: ToString_def powerSample_def decimalLib_def fmt_full DCGM_FT_FP64_BLANK_def
        DCGM_FT_FP64_NOT_FOUND_def DCGM_FT_FP64_NOT_SUPPORTED_def DCGM_FT_FP64_NOT_PERMISSIONED_def
        del: formatFixed.simps)
  show "ToString decimalLib driverSample = ''535.104''"
    using types
    by (simp add: ToString_def driverSample_def DCGM_FT_STR_BLANK_def DCGM_FT_STR_NOT_FOUND_def
        DCGM_FT_STR_NOT_SUPPORTED_def DCGM_FT_STR_NOT_PERMISSIONED_def)
  show "ToString decimalLib blankDriverSample = SkipDCGMValue"
    using types
    by (simp add: ToString_def blankDriverSample_def DCGM_FT_STR_BLANK_def DCGM_FT_STR_NOT_FOUND_def
        DCGM_FT_STR_NOT_SUPPORTED_def DCGM_FT_STR_NOT_PERMISSIONED_def)
qed

lemma sample_ids: "FieldId powerSample = 155" "FieldId driverSample = 1" "FieldId blankDriverSample = 1"
  by (simp_all add: powerSample_def driverSample_def blankDriverSample_def)

lemma resolve_examples:
  "FindCounterField [powerCounter, driverCounter] (FieldId powerSample) = Inr (powerCounter, None)"
  "FindCounterField [powerCounter, driverCounter] (FieldId driverSample) = Inr (driverCounter, None)"
  "FindCounterField [driverCounter] (FieldId blankDriverSample) = Inr (driverCounter, None)"
  by (simp_all add: FindCounterField_def powerCounter_def driverCounter_def sample_ids)

lemma counter_kinds:
  "PromType powerCounter \<noteq> ''label''" "PromType driverCounter = ''label''"
  "FieldName driverCounter = ''DCGM_FI_DRIVER_VERSION''" "powerCounter \<noteq> driverCounter"
  by (simp_all add: powerCounter_def driverCounter_def)

lemma skip_marker_text: "''200.000000'' \<noteq> SkipDCGMValue" "''535.104'' \<noteq> SkipDCGMValue"
  by (simp_all add: SkipDCGMValue_def)

lemma eval_switch_value:
  "emittedValues (ToSwitchMetric decimalLib emptyCollection [powerSample, driverSample]
       [powerCounter, driverCounter] switchInfo False ''host'') powerCounter
     = [''200.000000'']"
  by (simp add: ToSwitchMetric_def newLabels_def emptyCollection_def
      entityLoop_step sample_strings resolve_examples counter_kinds skip_marker_text
      setLabel_def appendMetric_def metricsOf_def emittedValues_def)

lemma eval_gpu_value':
  "emittedValues (ToMetric decimalLib emptyCollection [powerSample, driverSample]
       [powerCounter, driverCounter] gpu0 None False ''host'' False Map.empty) powerCounter
     = [''200.000000'']"
  by (simp add: ToMetric_def newLabels_def emptyCollection_def
      toMetricLoop_step sample_strings resolve_examples counter_kinds skip_marker_text
      setLabel_def appendMetric_def metricsOf_def emittedValues_def gpuMetric_def)

lemma eval_gpu_value:
  "emittedValues (ToMetric decimalLib emptyCollection [powerSample, driverSample]
       [powerCounter, driverCounter] gpu0 None False ''host'' False [0 \<mapsto> [migA]]) powerCounter
     = [''200.000000'']"
  by (simp add: ToMetric_def newLabels_def emptyCollection_def
      toMetricLoop_step sample_strings resolve_examples counter_kinds skip_marker_text
      setLabel_def appendMetric_def metricsOf_def emittedValues_def gpuMetric_def)

lemma pairs_examples:
  "entityLabelPairs decimalLib [powerCounter, driverCounter] [powerSample, driverSample]
     = [(''DCGM_FI_DRIVER_VERSION'', ''535.104'')]"
  "metricLabelPairs decimalLib [powerCounter, driverCounter] [powerSample, driverSample]
     = [(''DCGM_FI_DRIVER_VERSION'', ''535.104'')]"
  by (simp_all add: metricLabelPairs_def entityLabelPairs_def isLabelSample_def labelName_def
      sample_strings resolve_examples counter_kinds skip_marker_text)

section \<open>Pass-through of values\<close>

text \<open>
  Claim C5. For a GPU entity without instance metadata, every metric that \<open>ToMetric\<close>
  appends carries the normalized value of one of the samples, unchanged; the result
  does not depend on the resource cache, which is what not calling
  \<open>migDeviceResource\<close> amounts to; and \<open>ToMetric\<close> returns when the counter list is
  not empty. For a MIG entity, \<open>migDeviceResource\<close> returns its input value for every
  counter whose field id is not 155, so that \<open>ToMetric\<close> emits the normalized value
  for those counters too.
\<close>

theorem ToMetric_passes_values_through:
  "(ToMetric lib st values c d None useOld hostname rb cache = Inr st' \<longrightarrow>
      (\<forall>k. metricsOf st' k = metricsOf st k @ emitted st st' k
         \<and> (\<forall>m \<in> set (emitted st st' k). \<exists>x \<in> set values. Value m = ToString lib x \<and> FieldID (Counter m) = FieldId x)))
   \<and> ToMetric lib st values c d None useOld hostname rb cache
        = ToMetric lib st values c d None useOld hostname rb cache'
   \<and> (c \<noteq> [] \<longrightarrow> (\<exists>s. ToMetric lib st values c d None useOld hostname rb cache = Inr s))
   \<and> (FieldID counter \<noteq> 155 \<longrightarrow> migDeviceResource lib v profile i gpu counter cache = Inr v)
   \<and> (ToMetric lib st values c d (Some inst) useOld hostname rb cache = Inr st'' \<longrightarrow>
        (\<forall>k. \<forall>m \<in> set (emitted st st'' k). FieldID (Counter m) \<noteq> 155 \<longrightarrow> (\<exists>x \<in> set values. Value m = ToString lib x)))"
proof -
  have gpu: "ToMetric lib st values c d None useOld hostname rb cache = Inr st' \<longrightarrow>
      (\<forall>k. metricsOf st' k = metricsOf st k @ emitted st st' k
         \<and> (\<forall>m \<in> set (emitted st st' k). \<exists>x \<in> set values. Value m = ToString lib x \<and> FieldID (Counter m) = FieldId x))"
  proof (intro impI allI)
    fix k assume "ToMetric lib st values c d None useOld hostname rb cache = Inr st'"
    from passInv_fresh(2,3) [OF ToMetric_pass [OF this], of k]
    show "metricsOf st' k = metricsOf st k @ emitted st st' k
         \<and> (\<forall>m \<in> set (emitted st st' k). \<exists>x \<in> set values. Value m = ToString lib x \<and> FieldID (Counter m) = FieldId x)"
      by (fastforce simp: fromSample_def)
  qed
  have indep: "ToMetric lib st values c d None useOld hostname rb cache
        = ToMetric lib st values c d None useOld hostname rb cache'"
    by (simp add: ToMetric_def newLabels_def toMetricLoop_cache_unused [of _ _ _ _ _ _ _ cache _ _ cache'])
  have tot: "c \<noteq> [] \<longrightarrow> (\<exists>s. ToMetric lib st values c d None useOld hostname rb cache = Inr s)"
    by (simp add: ToMetric_def newLabels_def toMetricLoop_total)
  have other: "FieldID counter \<noteq> 155 \<longrightarrow> migDeviceResource lib v profile i gpu counter cache = Inr v"
    by (simp add: migDeviceResource_other_counter)
  have mig: "ToMetric lib st values c d (Some inst) useOld hostname rb cache = Inr st'' \<longrightarrow>
        (\<forall>k. \<forall>m \<in> set (emitted st st'' k). FieldID (Counter m) \<noteq> 155 \<longrightarrow> (\<exists>x \<in> set values. Value m = ToString lib x))"
  proof (intro impI allI ballI)
    fix k m assume r: "ToMetric lib st values c d (Some inst) useOld hostname rb cache = Inr st''"
      and m: "m \<in> set (emitted st st'' k)" and n: "FieldID (Counter m) \<noteq> 155"
    from passInv_fresh(3) [OF ToMetric_pass [OF r], of k] m
    have "fromSample lib values d (Some inst) cache m" by blast
    then obtain x where x: "x \<in> set values"
      "migDeviceResource lib (ToString lib x) (ProfileName inst) (showNat (NvmlInstanceId inst))
                           (Device_GPU d) (Counter m) cache = Inr (Value m)"
      by (auto simp: fromSample_def)
    from x(2) n have "Value m = ToString lib x"
      by (simp add: migDeviceResource_other_counter)
    with x(1) show "\<exists>x \<in> set values. Value m = ToString lib x" by blast
  qed
  from gpu indep tot other mig show ?thesis by blast
qed

theorem ToMetric_passes_values_through_witness:
  "emittedValues (ToMetric decimalLib emptyCollection [powerSample, driverSample]
       [powerCounter, driverCounter] gpu0 None False ''host'' False Map.empty) powerCounter
     = [''200.000000'']
   \<and> migDeviceResource decimalLib ''45'' ''3g.20gb'' ''1'' 0 tempCounter [0 \<mapsto> [migA]] = Inr ''45''"
proof -
  have "ToMetric decimalLib emptyCollection [powerSample, driverSample]
       [powerCounter, driverCounter] gpu0 None False ''host'' False Map.empty
     = ToMetric decimalLib emptyCollection [powerSample, driverSample]
       [powerCounter, driverCounter] gpu0 None False ''host'' False [0 \<mapsto> [migA]]"
    using ToMetric_passes_values_through [of decimalLib emptyCollection "[powerSample, driverSample]"
        "[powerCounter, driverCounter]" gpu0 False "''host''" False Map.empty
        undefined "[0 \<mapsto> [migA]]" tempCounter "''45''" "''3g.20gb''" "''1''" 0]
    by blast
  moreover have "migDeviceResource decimalLib ''45'' ''3g.20gb'' ''1'' 0 tempCounter [0 \<mapsto> [migA]] = Inr ''45''"
    using ToMetric_passes_values_through [of decimalLib emptyCollection "[powerSample, driverSample]"
        "[powerCounter, driverCounter]" gpu0 False "''host''" False "[0 \<mapsto> [migA]]"
        undefined "[0 \<mapsto> [migA]]" tempCounter "''45''" "''3g.20gb''" "''1''" 0]
    by (simp add: tempCounter_def)
  ultimately show ?thesis by (simp only: eval_gpu_value) 
qed

section \<open>Label aggregation\<close>

lemma singleton_map: "length xs = 1 \<Longrightarrow> \<forall>x \<in> set xs. f x = y \<Longrightarrow> map f xs = [y]"
  by (cases xs) auto

text \<open>
  Claim C7. In one pass of \<open>ToMetric\<close> and of \<open>ToSwitchMetric\<close> over the samples of an
  entity, no appended metric has a counter of kind \<open>label\<close>, and the label set of
  every appended metric is, after the pass, the map of all label pairs of the pass,
  whether a label sample came before or after the value sample: the metrics share one
  label map. So it contains every pair of label name and value of the pass when no label
  name occurs twice (a later value for the same name replaces the earlier one). Both
  builders return when the counter list is not empty.
\<close>

theorem builders_share_labels:
  "(ToMetric lib st values c d inst useOld hostname rb cache = Inr st' \<longrightarrow>
      (\<forall>k. metricsOf st' k = metricsOf st k @ emitted st st' k
         \<and> (\<forall>m \<in> set (emitted st st' k). PromType (Counter m) \<noteq> ''label''
              \<and> labelStore st' (Labels m) = map_of (rev (metricLabelPairs lib c values))
              \<and> (distinct (map fst (metricLabelPairs lib c values)) \<longrightarrow>
                   (\<forall>p \<in> set (metricLabelPairs lib c values). labelStore st' (Labels m) (fst p) = Some (snd p))))))
   \<and> (ToSwitchMetric lib st values c mi useOld hostname = Inr st'' \<longrightarrow>
      (\<forall>k. metricsOf st'' k = metricsOf st k @ emitted st st'' k
         \<and> (\<forall>m \<in> set (emitted st st'' k). PromType (Counter m) \<noteq> ''label''
              \<and> labelStore st'' (Labels m) = map_of (rev (entityLabelPairs lib c values))
              \<and> (distinct (map fst (entityLabelPairs lib c values)) \<longrightarrow>
                   (\<forall>p \<in> set (entityLabelPairs lib c values). labelStore st'' (Labels m) (fst p) = Some (snd p))))))
   \<and> (c \<noteq> [] \<longrightarrow> (\<exists>s. ToMetric lib st values c d None useOld hostname rb cache = Inr s)
                  \<and> (\<exists>s. ToSwitchMetric lib st values c mi useOld hostname = Inr s))"
proof -
  have dist: "labelStore s (Labels m) = map_of (rev ps) \<Longrightarrow>
      distinct (map fst ps) \<longrightarrow> (\<forall>p \<in> set ps. labelStore s (Labels m) (fst p) = Some (snd p))"
    for s m and ps :: "(string \<times> string) list"
    by (auto simp: map_of_rev_distinct)
  have gpu: "ToMetric lib st values c d inst useOld hostname rb cache = Inr st' \<longrightarrow>
      (\<forall>k. metricsOf st' k = metricsOf st k @ emitted st st' k
         \<and> (\<forall>m \<in> set (emitted st st' k). PromType (Counter m) \<noteq> ''label''
              \<and> labelStore st' (Labels m) = map_of (rev (metricLabelPairs lib c values))
              \<and> (distinct (map fst (metricLabelPairs lib c values)) \<longrightarrow>
                   (\<forall>p \<in> set (metricLabelPairs lib c values). labelStore st' (Labels m) (fst p) = Some (snd p)))))"
  proof (intro impI allI conjI ballI)
    fix k assume r: "ToMetric lib st values c d inst useOld hostname rb cache = Inr st'"
    note p = passInv_fresh [OF ToMetric_pass [OF r]]
    show "metricsOf st' k = metricsOf st k @ emitted st st' k" by (rule p(2))
    fix m assume m: "m \<in> set (emitted st st' k)"
    with p(3) [of k] show "PromType (Counter m) \<noteq> ''label''" by blast
    from p(3) [of k] m have "Labels m = nextRef st" by blast
    with p(1) show l: "labelStore st' (Labels m) = map_of (rev (metricLabelPairs lib c values))" by simp
    fix q assume "distinct (map fst (metricLabelPairs lib c values))" "q \<in> set (metricLabelPairs lib c values)"
    with dist [OF l] show "labelStore st' (Labels m) (fst q) = Some (snd q)" by blast
  qed
  have sw: "ToSwitchMetric lib st values c mi useOld hostname = Inr st'' \<longrightarrow>
      (\<forall>k. metricsOf st'' k = metricsOf st k @ emitted st st'' k
         \<and> (\<forall>m \<in> set (emitted st st'' k). PromType (Counter m) \<noteq> ''label''
              \<and> labelStore st'' (Labels m) = map_of (rev (entityLabelPairs lib c values))
              \<and> (distinct (map fst (entityLabelPairs lib c values)) \<longrightarrow>
                   (\<forall>p \<in> set (entityLabelPairs lib c values). labelStore st'' (Labels m) (fst p) = Some (snd p)))))"
  proof (intro impI allI conjI ballI)
    fix k assume r: "ToSwitchMetric lib st values c mi useOld hostname = Inr st''"
    note p = passInv_fresh [OF ToSwitchMetric_pass [OF r]]
    show "metricsOf st'' k = metricsOf st k @ emitted st st'' k" by (rule p(2))
    fix m assume m: "m \<in> set (emitted st st'' k)"
    with p(3) [of k] show "PromType (Counter m) \<noteq> ''label''" by blast
    from p(3) [of k] m have "Labels m = nextRef st" by blast
    with p(1) show l: "labelStore st'' (Labels m) = map_of (rev (entityLabelPairs lib c values))" by simp
    fix q assume "distinct (map fst (entityLabelPairs lib c values))" "q \<in> set (entityLabelPairs lib c values)"
    with dist [OF l] show "labelStore st'' (Labels m) (fst q) = Some (snd q)" by blast
  qed
  have tot: "c \<noteq> [] \<longrightarrow> (\<exists>s. ToMetric lib st values c d None useOld hostname rb cache = Inr s)
                  \<and> (\<exists>s. ToSwitchMetric lib st values c mi useOld hostname = Inr s)"
    by (simp add: ToMetric_def ToSwitchMetric_def newLabels_def toMetricLoop_total entityLoop_total)
  from gpu sw tot show ?thesis by blast
qed

theorem builders_share_labels_witness:
  "emittedLabels (ToSwitchMetric decimalLib emptyCollection [powerSample, driverSample]
       [powerCounter, driverCounter] switchInfo False ''host'') powerCounter ''DCGM_FI_DRIVER_VERSION''
     = [Some ''535.104'']
   \<and> emittedLabels (ToMetric decimalLib emptyCollection [powerSample, driverSample]
       [powerCounter, driverCounter] gpu0 None False ''host'' False Map.empty) powerCounter ''DCGM_FI_DRIVER_VERSION''
     = [Some ''535.104'']"
proof -
  note returns = builders_share_labels [of decimalLib emptyCollection "[powerSample, driverSample]"
      "[powerCounter, driverCounter]" gpu0 None False "''host''" False Map.empty _ switchInfo]
  have ne: "[powerCounter, driverCounter] \<noteq> []" by simp
  have old: "metricsOf emptyCollection powerCounter = []"
    by (simp add: metricsOf_def emptyCollection_def)
  from returns ne obtain s where s: "ToSwitchMetric decimalLib emptyCollection [powerSample, driverSample]
       [powerCounter, driverCounter] switchInfo False ''host'' = Inr s" by blast
  from returns ne obtain t where t: "ToMetric decimalLib emptyCollection [powerSample, driverSample]
       [powerCounter, driverCounter] gpu0 None False ''host'' False Map.empty = Inr t" by blast
  from builders_share_labels [of decimalLib emptyCollection "[powerSample, driverSample]"
      "[powerCounter, driverCounter]" gpu0 None False "''host''" False Map.empty t switchInfo s] s t
  have sw: "metricsOf s powerCounter = metricsOf emptyCollection powerCounter @ emitted emptyCollection s powerCounter"
    and swl: "\<forall>m \<in> set (emitted emptyCollection s powerCounter).
        labelStore s (Labels m) ''DCGM_FI_DRIVER_VERSION'' = Some ''535.104''"
    and gp: "metricsOf t powerCounter = metricsOf emptyCollection powerCounter @ emitted emptyCollection t powerCounter"
    and gpl: "\<forall>m \<in> set (emitted emptyCollection t powerCounter).
        labelStore t (Labels m) ''DCGM_FI_DRIVER_VERSION'' = Some ''535.104''"
    by (simp_all add: pairs_examples)
  from eval_switch_value s have "length (metricsOf s powerCounter) = 1"
    by (simp add: emittedValues_def) (metis length_map length_Cons list.size(3) One_nat_def)
  with sw swl old have a: "map (\<lambda>m. labelStore s (Labels m) ''DCGM_FI_DRIVER_VERSION'') (metricsOf s powerCounter)
      = [Some ''535.104'']"
    by (intro singleton_map) simp_all
  from eval_gpu_value' t have "length (metricsOf t powerCounter) = 1"
    by (simp add: emittedValues_def) (metis length_map length_Cons list.size(3) One_nat_def)
  with gp gpl old have b: "map (\<lambda>m. labelStore t (Labels m) ''DCGM_FI_DRIVER_VERSION'') (metricsOf t powerCounter)
      = [Some ''535.104'']"
    by (intro singleton_map) simp_all
  from a b s t show ?thesis by (simp add: emittedLabels_def)
qed

section \<open>Skip markers in the builders\<close>

text \<open>
  \<open>ToMetric\<close> drops a sample with the skip marker before anything else: a pass over
  the samples is the pass over the samples without the skipped ones.
\<close>

lemma ToMetric_ignores_skip:
  "ToMetric lib st values c d inst useOld hostname rb cache
     = ToMetric lib st (filter (\<lambda>x. ToString lib x \<noteq> SkipDCGMValue) values) c d inst useOld hostname rb cache"
  by (simp add: ToMetric_def newLabels_def toMetricLoop_ignores_skip [of _ "values"])

text \<open>
  Claim C8 does not hold for the switch, link and CPU builders. For one sample of a
  label counter whose payload is the not-found sentinel, \<open>ToSwitchMetric\<close> and
  \<open>ToCPUMetric\<close> store the skip marker as the value of the label, because they compare
  the value with the skip marker only after the label branch; \<open>ToMetric\<close> on the same
  sample leaves the label set empty.
\<close>

theorem switch_label_keeps_skip_marker:
  "ToSwitchMetric decimalLib emptyCollection [blankDriverSample] [driverCounter] switchInfo False ''host''
     = Inr \<lparr>metrics = Map.empty,
            labelStore = (\<lambda>a. Map.empty)(0 := [''DCGM_FI_DRIVER_VERSION'' \<mapsto> SkipDCGMValue]), nextRef = 1\<rparr>
   \<and> ToCPUMetric decimalLib emptyCollection [blankDriverSample] [driverCounter] switchInfo False ''host''
     = Inr \<lparr>metrics = Map.empty,
            labelStore = (\<lambda>a. Map.empty)(0 := [''DCGM_FI_DRIVER_VERSION'' \<mapsto> SkipDCGMValue]), nextRef = 1\<rparr>
   \<and> ToMetric decimalLib emptyCollection [blankDriverSample] [driverCounter] gpu0 None False ''host'' False Map.empty
     = Inr \<lparr>metrics = Map.empty, labelStore = (\<lambda>a. Map.empty)(0 := Map.empty), nextRef = 1\<rparr>"
  by (simp add: ToSwitchMetric_def ToCPUMetric_def ToMetric_def newLabels_def emptyCollection_def
      entityLoop_step toMetricLoop_step sample_strings resolve_examples counter_kinds
      setLabel_def)

section \<open>The cache builder\<close>

lemma migCacheLoop_partitions:
  assumes "\<forall>mi \<in> set mis. isPartition mi
      \<and> \<not> connectionLost (snd (sample (EntityGroupId (Entity mi)) (EntityId (Entity mi)) fileds))"
  shows "\<exists>cache'. migCacheLoop lib sample mis cache = Inr cache'
      \<and> (\<forall>g. cacheOf cache' g = cacheOf cache g @ partitionsOf lib sample mis g)
      \<and> (\<forall>g. cache' g = None \<longleftrightarrow> cache g = None \<and> partitionsOf lib sample mis g = [])"
  using assms
proof (induction mis arbitrary: cache)
  case Nil
  then show ?case by (simp add: partitionsOf_def)
next
  case (Cons mi mis)
  from Cons.prems obtain inst where inst: "InstanceInfo mi = Some inst"
    by (auto simp: isPartition_def)
  let ?g = "Device_GPU (DeviceInfo mi)"
  let ?e = "migEntry lib sample mi inst"
  let ?cache = "cache(?g \<mapsto> cacheOf cache ?g @ [?e])"
  have step: "migCacheLoop lib sample (mi # mis) cache = migCacheLoop lib sample mis ?cache"
    using inst Cons.prems by (simp add: cacheOf_def Let_def split: option.splits)
  have rest: "\<forall>mi \<in> set mis. isPartition mi
      \<and> \<not> connectionLost (snd (sample (EntityGroupId (Entity mi)) (EntityId (Entity mi)) fileds))"
    using Cons.prems by simp
  from Cons.IH [OF rest, of ?cache] obtain cache' where
    r: "migCacheLoop lib sample mis ?cache = Inr cache'"
    and c: "\<forall>g. cacheOf cache' g = cacheOf ?cache g @ partitionsOf lib sample mis g"
    and n: "\<forall>g. cache' g = None \<longleftrightarrow> ?cache g = None \<and> partitionsOf lib sample mis g = []"
    by blast
  have p: "partitionsOf lib sample (mi # mis) g
      = (if ?g = g then [?e] else []) @ partitionsOf lib sample mis g" for g
    using inst by (simp add: partitionsOf_def)
  have c': "cacheOf cache' g = cacheOf cache g @ partitionsOf lib sample (mi # mis) g" for g
    using c [rule_format, of g] by (simp add: p cacheOf_def)
  have n': "cache' g = None \<longleftrightarrow> cache g = None \<and> partitionsOf lib sample (mi # mis) g = []" for g
    using n [rule_format, of g] by (simp add: p)
  from step r c' n' show ?case by simp
qed

lemma generateMigCache_no_partitions:
  "\<forall>mi \<in> set mis. \<not> isPartition mi \<Longrightarrow> generateMigCache lib sample mis = Inr Map.empty"
  by (cases mis) (simp_all add: generateMigCache_def isPartition_def)

text \<open>
  A sample with the skip marker, and a sample whose string does not parse, leave the
  entry as it is: that dimension keeps its zero.
\<close>

lemma fillMigCache_unusable:
  "\<forall>x \<in> set vals. ToString lib x = SkipDCGMValue \<or> ParseFloat lib (ToString lib x) = None
     \<Longrightarrow> fillMigCache lib vals migCache = migCache"
  by (induction vals) (auto simp: Let_def)

text \<open>
  Claim C4 does not hold for a list that has an entity without instance metadata after
  a partition: \<open>generateMigCache\<close> returns at that entity with a cache without entries,
  and the entry it has built for the partition of GPU 0 is lost. For lists of
  partitions only, and for lists without partitions, the two lemmas above give what
  the claim states.
\<close>

theorem generateMigCache_mixed_list:
  "generateMigCache decimalLib quietSampler [partitionInfo, plainGpuInfo] = Inr Map.empty
   \<and> partitionsOf decimalLib quietSampler [partitionInfo, plainGpuInfo] 0
       = [\<lparr>ID = ''1'', Profile = ''3g.20gb'', ResourceCache = zeroCache\<rparr>]"
  by (simp add: generateMigCache_def partitionInfo_def plainGpuInfo_def quietSampler_def connectionLost_def
      partitionsOf_def migEntry_def gpu0_def zeroMig_def showNat.simps digitChar_def)

end
